theory Spec2Isabelle
  imports Main "HOL-Library.Word"
begin

section \<open>Order placement of the e-commerce API (main.py, create_order)\<close>

text \<open>
  The development embeds the handler of \<^verbatim>\<open>POST /api/orders\<close> together with the part
  of the MySQL connection it drives. The connection is explicit state: the committed
  tables, the tables as this connection sees them (with its uncommitted writes), the
  transaction flag and the list of storage operations issued so far. Exceptions are
  values of a sum type, and every source of data outside the handler (clock, random
  bytes, generated row id, failing storage operations, float arithmetic) is a field of
  an environment record.
\<close>

subsection \<open>Exceptions\<close>

text \<open>
  The \<^verbatim>\<open>detail\<close> of each \<^verbatim>\<open>HTTPException\<close> the handler raises, one constructor per
  message, with the values the message interpolates:
  \<^item> \<open>OrderNotCreated\<close>: line 183, status 500 (the insertion produced no id);
  \<^item> \<open>ProductMissing pid\<close>: line 198, status 404;
  \<^item> \<open>ProductDisabled pid\<close>: line 203, status 400;
  \<^item> \<open>StockShort pid available requested\<close>: line 206, status 400;
  \<^item> \<open>StockUpdateFailed pid\<close>: line 220, status 400;
  \<^item> \<open>ServerError\<close>: lines 240-243, status 500 (a \<^verbatim>\<open>mysql.connector.Error\<close>);
  \<^item> \<open>RequestInvalid\<close>: the 422 answer of the framework to a body that does not
    validate against \<^verbatim>\<open>CreateOrderRequest\<close>.
\<close>

datatype detail =
    OrderNotCreated
  | ProductMissing int
  | ProductDisabled int
  | StockShort int int int
  | StockUpdateFailed int
  | ServerError
  | RequestInvalid

datatype exn =
    HTTPException nat detail
  | Error

subsection \<open>Requests (lines 50-56)\<close>

record order_item_request =
  product_id :: int
  quantity :: int

record create_order_request =
  user_id :: int
  items :: "order_item_request list"

text \<open>
  The \<^verbatim>\<open>Field\<close> constraints: \<^verbatim>\<open>gt=0\<close> on \<^verbatim>\<open>product_id\<close>, \<^verbatim>\<open>quantity\<close> and
  \<^verbatim>\<open>user_id\<close>, \<^verbatim>\<open>min_items=1\<close> on \<^verbatim>\<open>items\<close>.
\<close>

definition OrderItemRequest_valid :: "order_item_request \<Rightarrow> bool" where
  "OrderItemRequest_valid item \<longleftrightarrow> product_id item > 0 \<and> quantity item > 0"

definition CreateOrderRequest_valid :: "create_order_request \<Rightarrow> bool" where
  "CreateOrderRequest_valid order_data \<longleftrightarrow>
     user_id order_data > 0
     \<and> length (items order_data) \<ge> 1
     \<and> list_all OrderItemRequest_valid (items order_data)"

subsection \<open>Clock, random bytes and the order number (lines 173-174)\<close>

record datetime =
  year :: nat
  month :: nat
  day :: nat
  hour :: nat
  minute :: nat
  second :: nat

definition digit_char :: "nat \<Rightarrow> char" where
  "digit_char n = ''0123456789abcdef'' ! n"

text \<open>A decimal field of fixed width, zero padded, as \<^verbatim>\<open>strftime\<close> prints
  \<^verbatim>\<open>%m %d %H %M %S\<close> (width 2) and \<^verbatim>\<open>%Y\<close> (width 4, for the four-digit years of
  \<^verbatim>\<open>datetime.now()\<close>).\<close>

fun zero_padded :: "nat \<Rightarrow> nat \<Rightarrow> string" where
  "zero_padded 0 n = []"
| "zero_padded (Suc w) n = zero_padded w (n div 10) @ [digit_char (n mod 10)]"

text \<open>\<^verbatim>\<open>strftime('%Y%m%d%H%M%S')\<close>\<close>

definition strftime_compact :: "datetime \<Rightarrow> string" where
  "strftime_compact d =
     zero_padded 4 (year d) @ zero_padded 2 (month d) @ zero_padded 2 (day d)
     @ zero_padded 2 (hour d) @ zero_padded 2 (minute d) @ zero_padded 2 (second d)"

text \<open>\<^verbatim>\<open>strftime('%Y-%m-%d %H:%M:%S')\<close>\<close>

definition strftime_sql :: "datetime \<Rightarrow> string" where
  "strftime_sql d =
     zero_padded 4 (year d) @ ''-'' @ zero_padded 2 (month d) @ ''-'' @ zero_padded 2 (day d)
     @ '' '' @ zero_padded 2 (hour d) @ '':'' @ zero_padded 2 (minute d)
     @ '':'' @ zero_padded 2 (second d)"

text \<open>\<^verbatim>\<open>bytes.hex()\<close> of one byte: two lower-case hexadecimal digits.\<close>

definition hex_byte :: "8 word \<Rightarrow> string" where
  "hex_byte b = [digit_char (unat b div 16), digit_char (unat b mod 16)]"

text \<open>\<^verbatim>\<open>f"ORD{datetime.now().strftime('%Y%m%d%H%M%S')}{os.urandom(2).hex()}"\<close>; the two
  bytes of \<^verbatim>\<open>os.urandom(2)\<close> are the pair \<open>r\<close>.\<close>

definition order_number :: "datetime \<Rightarrow> 8 word \<times> 8 word \<Rightarrow> string" where
  "order_number now r = ''ORD'' @ strftime_compact now @ hex_byte (fst r) @ hex_byte (snd r)"

subsection \<open>Tables\<close>

text \<open>
  Only the columns the handler reads or writes. Prices are of a type \<open>'d\<close> (the
  column's decimal), amounts of a type \<open>'f\<close> (Python's float); the arithmetic on them
  is a parameter, so no law of arithmetic is assumed of it.
\<close>

record 'd product =
  stock :: int
  price :: 'd
  is_deleted :: bool
  p_updated_at :: string

record 'f order_row =
  o_id :: int
  o_user_id :: int
  o_number :: string
  o_status :: string
  total_amount :: 'f
  o_created_at :: string
  o_updated_at :: string

record 'f order_item_row =
  i_order_id :: int
  i_product_id :: int
  i_quantity :: int
  unit_price :: 'f
  subtotal :: 'f
  i_created_at :: string
  i_updated_at :: string

text \<open>\<^verbatim>\<open>products\<close> is keyed by its \<^verbatim>\<open>id\<close> (every statement on it selects
  \<^verbatim>\<open>WHERE id = %s\<close>); the other two tables are the lists of their rows, in insertion
  order.\<close>

record ('d, 'f) tables =
  products :: "int \<rightharpoonup> 'd product"
  orders :: "'f order_row list"
  order_items :: "'f order_item_row list"

subsection \<open>The connection\<close>

datatype stmt =
    StartTransaction
  | InsertOrder int string
  | SelectProductForUpdate int
  | UpdateProductStock int int
  | InsertOrderItem int int int
  | UpdateOrderTotal int
  | Commit
  | Rollback

record ('d, 'f) connection =
  committed :: "('d, 'f) tables"
  working :: "('d, 'f) tables"
  in_transaction :: bool
  log :: "stmt list"

text \<open>
  What the handler takes from outside:
  \<^item> \<open>now_number\<close>, \<open>now_current\<close>: the two readings of \<^verbatim>\<open>datetime.now()\<close>;
  \<^item> \<open>urandom\<close>: the two bytes of \<^verbatim>\<open>os.urandom(2)\<close>;
  \<^item> \<open>lastrowid\<close>: \<^verbatim>\<open>cursor.lastrowid\<close> after the insertion into \<^verbatim>\<open>orders\<close>
    (an integer or \<^verbatim>\<open>None\<close>);
  \<^item> \<open>fault n\<close>: the storage operation issued when \<open>n\<close> operations are already in the
    log raises \<^verbatim>\<open>mysql.connector.Error\<close>;
  \<^item> \<open>float_of\<close> is \<^verbatim>\<open>float(product_price)\<close>, \<open>fmul\<close> the product of a float and an
    integer, \<open>fadd\<close> the sum of two floats, \<open>fzero\<close> the literal \<^verbatim>\<open>0.0\<close>.
\<close>

record ('d, 'f) env =
  now_number :: datetime
  now_current :: datetime
  urandom :: "8 word \<times> 8 word"
  lastrowid :: "int option"
  fault :: "nat \<Rightarrow> bool"
  float_of :: "'d \<Rightarrow> 'f"
  fmul :: "'f \<Rightarrow> int \<Rightarrow> 'f"
  fadd :: "'f \<Rightarrow> 'f \<Rightarrow> 'f"
  fzero :: 'f

definition raises :: "('d, 'f) env \<Rightarrow> ('d, 'f) connection \<Rightarrow> bool" where
  "raises E c = fault E (length (log c))"

definition logged :: "stmt \<Rightarrow> ('d, 'f) connection \<Rightarrow> ('d, 'f) connection" where
  "logged st c = c\<lparr>log := log c @ [st]\<rparr>"

text \<open>\<^verbatim>\<open>db.start_transaction()\<close>; the connector refuses it inside a transaction.\<close>

definition start_transaction ::
  "('d, 'f) env \<Rightarrow> ('d, 'f) connection \<Rightarrow> (exn + unit) \<times> ('d, 'f) connection" where
  "start_transaction E c =
     (if raises E c \<or> in_transaction c then (Inl Error, logged StartTransaction c)
      else (Inr (), (logged StartTransaction c)\<lparr>in_transaction := True\<rparr>))"

text \<open>\<^verbatim>\<open>db.commit()\<close>: the uncommitted writes become the committed tables.\<close>

definition commit ::
  "('d, 'f) env \<Rightarrow> ('d, 'f) connection \<Rightarrow> (exn + unit) \<times> ('d, 'f) connection" where
  "commit E c =
     (if raises E c then (Inl Error, logged Commit c)
      else (Inr (), (logged Commit c)\<lparr>committed := working c, in_transaction := False\<rparr>))"

text \<open>\<^verbatim>\<open>db.rollback()\<close>: the uncommitted writes are dropped. The primitive of the
  store is taken to succeed.\<close>

definition rollback :: "('d, 'f) connection \<Rightarrow> ('d, 'f) connection" where
  "rollback c = (logged Rollback c)\<lparr>working := committed c, in_transaction := False\<rparr>"

text \<open>Modelled from the spec: the schema of \<^verbatim>\<open>orders\<close> is not in src/, and the
  insertion of lines 177-180 leaves \<^verbatim>\<open>total_amount\<close> to the column's default; the
  spec says the row is created with zero total amount.\<close>

definition total_amount_default :: "('d, 'f) env \<Rightarrow> 'f" where
  "total_amount_default E = fzero E"

text \<open>Lines 177-181: the insertion into \<^verbatim>\<open>orders\<close>, returning
  \<^verbatim>\<open>cursor.lastrowid\<close>.\<close>

definition insert_order ::
  "('d, 'f) env \<Rightarrow> int \<Rightarrow> string \<Rightarrow> string \<Rightarrow> ('d, 'f) connection
     \<Rightarrow> (exn + int option) \<times> ('d, 'f) connection" where
  "insert_order E uid num current_time c =
     (let c1 = logged (InsertOrder uid num) c in
      if raises E c then (Inl Error, c1)
      else
        (Inr (lastrowid E),
         c1\<lparr>working := (working c)\<lparr>orders := orders (working c) @
            [\<lparr>o_id = (case lastrowid E of None \<Rightarrow> 0 | Some i \<Rightarrow> i),
              o_user_id = uid, o_number = num, o_status = ''pending'',
              total_amount = total_amount_default E,
              o_created_at = current_time, o_updated_at = current_time\<rparr>]\<rparr>\<rparr>))"

text \<open>Lines 194-195: the locked read; the row comes back as the tuple
  \<^verbatim>\<open>(stock, price, is_deleted)\<close>, or \<^verbatim>\<open>None\<close>.\<close>

definition select_product_for_update ::
  "('d, 'f) env \<Rightarrow> int \<Rightarrow> ('d, 'f) connection
     \<Rightarrow> (exn + (int \<times> 'd \<times> bool) option) \<times> ('d, 'f) connection" where
  "select_product_for_update E pid c =
     (let c1 = logged (SelectProductForUpdate pid) c in
      if raises E c then (Inl Error, c1)
      else
        (Inr (case products (working c) pid of
                None \<Rightarrow> None
              | Some p \<Rightarrow> Some (stock p, price p, is_deleted p)), c1))"

text \<open>Lines 213-216: the conditional update
  \<^verbatim>\<open>SET stock = stock - %s, updated_at = %s WHERE id = %s AND stock >= %s\<close>, returning
  \<^verbatim>\<open>cursor.rowcount\<close>.\<close>

definition update_product_stock ::
  "('d, 'f) env \<Rightarrow> int \<Rightarrow> string \<Rightarrow> int \<Rightarrow> ('d, 'f) connection
     \<Rightarrow> (exn + nat) \<times> ('d, 'f) connection" where
  "update_product_stock E qty current_time pid c =
     (let c1 = logged (UpdateProductStock qty pid) c in
      if raises E c then (Inl Error, c1)
      else
        (case products (working c) pid of
           None \<Rightarrow> (Inr 0, c1)
         | Some p \<Rightarrow>
             if stock p \<ge> qty
             then (Inr 1,
                   c1\<lparr>working := (working c)\<lparr>products := (products (working c))
                      (pid \<mapsto> p\<lparr>stock := stock p - qty, p_updated_at := current_time\<rparr>)\<rparr>\<rparr>)
             else (Inr 0, c1)))"

text \<open>Lines 223-226: the insertion into \<^verbatim>\<open>order_items\<close>.\<close>

definition insert_order_item ::
  "('d, 'f) env \<Rightarrow> int \<Rightarrow> int \<Rightarrow> int \<Rightarrow> 'f \<Rightarrow> 'f \<Rightarrow> string \<Rightarrow> ('d, 'f) connection
     \<Rightarrow> (exn + unit) \<times> ('d, 'f) connection" where
  "insert_order_item E oid pid qty uprice sub current_time c =
     (let c1 = logged (InsertOrderItem oid pid qty) c in
      if raises E c then (Inl Error, c1)
      else
        (Inr (),
         c1\<lparr>working := (working c)\<lparr>order_items := order_items (working c) @
            [\<lparr>i_order_id = oid, i_product_id = pid, i_quantity = qty,
              unit_price = uprice, subtotal = sub,
              i_created_at = current_time, i_updated_at = current_time\<rparr>]\<rparr>\<rparr>))"

text \<open>Line 229: \<^verbatim>\<open>UPDATE orders SET total_amount = %s WHERE id = %s\<close>.\<close>

definition update_order_total ::
  "('d, 'f) env \<Rightarrow> 'f \<Rightarrow> int \<Rightarrow> ('d, 'f) connection \<Rightarrow> (exn + unit) \<times> ('d, 'f) connection" where
  "update_order_total E tot oid c =
     (let c1 = logged (UpdateOrderTotal oid) c in
      if raises E c then (Inl Error, c1)
      else
        (Inr (),
         c1\<lparr>working := (working c)\<lparr>orders :=
            map (\<lambda>r. if o_id r = oid then r\<lparr>total_amount := tot\<rparr> else r)
                (orders (working c))\<rparr>\<rparr>))"

subsection \<open>The handler (lines 163-249)\<close>

text \<open>Lines 200-226: the rest of the loop body once the locked read has returned the
  tuple \<open>product\<close>. It is a function of that tuple and of the connection at the time of
  the conditional update.\<close>

definition process_fetched ::
  "('d, 'f) env \<Rightarrow> int \<Rightarrow> string \<Rightarrow> 'f \<Rightarrow> order_item_request \<Rightarrow> int \<times> 'd \<times> bool
     \<Rightarrow> ('d, 'f) connection \<Rightarrow> (exn + 'f) \<times> ('d, 'f) connection" where
  "process_fetched E order_id current_time tot item product c =
     (let pid = product_id item; qty = quantity item;
          product_stock = fst product; product_price = fst (snd product);
          deleted = snd (snd product)
      in
      if deleted then (Inl (HTTPException 400 (ProductDisabled pid)), c)
      else if product_stock < qty
      then (Inl (HTTPException 400 (StockShort pid product_stock qty)), c)
      else
        (let uprice = float_of E product_price;
             sub = fmul E uprice qty;
             tot' = fadd E tot sub
         in
         case update_product_stock E qty current_time pid c of
           (Inl e, c1) \<Rightarrow> (Inl e, c1)
         | (Inr rowcount, c1) \<Rightarrow>
             if rowcount = 0
             then (Inl (HTTPException 400 (StockUpdateFailed pid)), rollback c1)
             else
               (case insert_order_item E order_id pid qty uprice sub current_time c1 of
                  (Inl e, c2) \<Rightarrow> (Inl e, c2)
                | (Inr u, c2) \<Rightarrow> (Inr tot', c2))))"

text \<open>Lines 188-226: one pass of the loop body.\<close>

definition process_item ::
  "('d, 'f) env \<Rightarrow> int \<Rightarrow> string \<Rightarrow> 'f \<Rightarrow> order_item_request
     \<Rightarrow> ('d, 'f) connection \<Rightarrow> (exn + 'f) \<times> ('d, 'f) connection" where
  "process_item E order_id current_time tot item c =
     (case select_product_for_update E (product_id item) c of
        (Inl e, c1) \<Rightarrow> (Inl e, c1)
      | (Inr None, c1) \<Rightarrow> (Inl (HTTPException 404 (ProductMissing (product_id item))), c1)
      | (Inr (Some product), c1) \<Rightarrow>
          process_fetched E order_id current_time tot item product c1)"

text \<open>Line 187: the loop over \<^verbatim>\<open>order_data.items\<close>; an exception leaves it.\<close>

fun process_items ::
  "('d, 'f) env \<Rightarrow> int \<Rightarrow> string \<Rightarrow> 'f \<Rightarrow> order_item_request list
     \<Rightarrow> ('d, 'f) connection \<Rightarrow> (exn + 'f) \<times> ('d, 'f) connection" where
  "process_items E order_id current_time tot [] c = (Inr tot, c)"
| "process_items E order_id current_time tot (item # rest) c =
     (case process_item E order_id current_time tot item c of
        (Inl e, c1) \<Rightarrow> (Inl e, c1)
      | (Inr tot', c1) \<Rightarrow> process_items E order_id current_time tot' rest c1)"

text \<open>Lines 169-232: the \<^verbatim>\<open>try\<close> block.\<close>

definition create_order_try ::
  "('d, 'f) env \<Rightarrow> create_order_request \<Rightarrow> ('d, 'f) connection
     \<Rightarrow> (exn + int \<times> string) \<times> ('d, 'f) connection" where
  "create_order_try E order_data c =
     (case start_transaction E c of
        (Inl e, c1) \<Rightarrow> (Inl e, c1)
      | (Inr u, c1) \<Rightarrow>
          (let num = order_number (now_number E) (urandom E);
               current_time = strftime_sql (now_current E)
           in
           case insert_order E (user_id order_data) num current_time c1 of
             (Inl e, c2) \<Rightarrow> (Inl e, c2)
           | (Inr None, c2) \<Rightarrow> (Inl (HTTPException 500 OrderNotCreated), c2)
           | (Inr (Some order_id), c2) \<Rightarrow>
               if order_id = 0 then (Inl (HTTPException 500 OrderNotCreated), c2)
               else
                 (case process_items E order_id current_time (fzero E) (items order_data) c2 of
                    (Inl e, c3) \<Rightarrow> (Inl e, c3)
                  | (Inr tot, c3) \<Rightarrow>
                      (case update_order_total E tot order_id c3 of
                         (Inl e, c4) \<Rightarrow> (Inl e, c4)
                       | (Inr u, c4) \<Rightarrow>
                           (case commit E c4 of
                              (Inl e, c5) \<Rightarrow> (Inl e, c5)
                            | (Inr u, c5) \<Rightarrow> (Inr (order_id, num), c5))))))"

text \<open>Lines 234-247: the handlers. An \<^verbatim>\<open>HTTPException\<close> is raised again after the
  rollback; a \<^verbatim>\<open>mysql.connector.Error\<close> becomes the 500 answer.\<close>

definition create_order ::
  "('d, 'f) env \<Rightarrow> create_order_request \<Rightarrow> ('d, 'f) connection
     \<Rightarrow> (exn + int \<times> string) \<times> ('d, 'f) connection" where
  "create_order E order_data c =
     (case create_order_try E order_data c of
        (Inl (HTTPException code d), c1) \<Rightarrow> (Inl (HTTPException code d), rollback c1)
      | (Inl Error, c1) \<Rightarrow> (Inl (HTTPException 500 ServerError), rollback c1)
      | (Inr r, c1) \<Rightarrow> (Inr r, c1))"

text \<open>The route of line 162: the framework validates the body against
  \<^verbatim>\<open>CreateOrderRequest\<close> and calls the handler only with a valid one; otherwise it
  answers 422 itself.\<close>

definition post_api_orders ::
  "('d, 'f) env \<Rightarrow> create_order_request \<Rightarrow> ('d, 'f) connection
     \<Rightarrow> (exn + int \<times> string) \<times> ('d, 'f) connection" where
  "post_api_orders E order_data c =
     (if CreateOrderRequest_valid order_data then create_order E order_data c
      else (Inl (HTTPException 422 RequestInvalid), c))"

subsection \<open>Vocabulary of the properties\<close>

text \<open>The quantity a request asks of product \<open>p\<close>, summed over the lines that name
  it.\<close>

definition requested :: "order_item_request list \<Rightarrow> int \<Rightarrow> int" where
  "requested its p = sum_list (map quantity (filter (\<lambda>it. product_id it = p) its))"

text \<open>The products whose rows a sequence of storage operations has locked, in the order
  of the locked reads.\<close>

fun locks_acquired :: "stmt list \<Rightarrow> int list" where
  "locks_acquired [] = []"
| "locks_acquired (SelectProductForUpdate p # ss) = p # locks_acquired ss"
| "locks_acquired (s # ss) = locks_acquired ss"

text \<open>The three storage operations of a line that passes every check.\<close>

definition item_stmts :: "int \<Rightarrow> order_item_request \<Rightarrow> stmt list" where
  "item_stmts oid it =
     [SelectProductForUpdate (product_id it),
      UpdateProductStock (quantity it) (product_id it),
      InsertOrderItem oid (product_id it) (quantity it)]"

text \<open>The ranges of the fields of a \<^verbatim>\<open>datetime\<close>, with a four-digit year.\<close>

definition datetime_valid :: "datetime \<Rightarrow> bool" where
  "datetime_valid d \<longleftrightarrow>
     1000 \<le> year d \<and> year d \<le> 9999 \<and> 1 \<le> month d \<and> month d \<le> 12
     \<and> 1 \<le> day d \<and> day d \<le> 31 \<and> hour d \<le> 23 \<and> minute d \<le> 59 \<and> second d \<le> 59"

subsection \<open>A concrete shop\<close>

text \<open>Amounts in cents, as integers: product 1 has stock 5 and price 10.00, product 2
  stock 2 and price 2.50, product 3 is soft-deleted.\<close>

definition shop_env :: "(int, int) env" where
  "shop_env =
     \<lparr>now_number = \<lparr>year = 2024, month = 5, day = 17, hour = 9, minute = 3, second = 7\<rparr>,
      now_current = \<lparr>year = 2024, month = 5, day = 17, hour = 9, minute = 3, second = 7\<rparr>,
      urandom = (0xAB, 0x07), lastrowid = Some 1, fault = (\<lambda>n. False),
      float_of = (\<lambda>d. d), fmul = (\<lambda>x q. x * q), fadd = (\<lambda>x y. x + y), fzero = 0\<rparr>"

definition shop_products :: "int \<rightharpoonup> int product" where
  "shop_products =
     [1 \<mapsto> \<lparr>stock = 5, price = 1000, is_deleted = False, p_updated_at = []\<rparr>,
      2 \<mapsto> \<lparr>stock = 2, price = 250, is_deleted = False, p_updated_at = []\<rparr>,
      3 \<mapsto> \<lparr>stock = 9, price = 100, is_deleted = True, p_updated_at = []\<rparr>]"

definition shop_tables :: "(int, int) tables" where
  "shop_tables = \<lparr>products = shop_products, orders = [], order_items = []\<rparr>"

definition shop_conn :: "(int, int) connection" where
  "shop_conn =
     \<lparr>committed = shop_tables, working = shop_tables, in_transaction = False, log = []\<rparr>"

definition line :: "int \<Rightarrow> int \<Rightarrow> order_item_request" where
  "line p q = \<lparr>product_id = p, quantity = q\<rparr>"

definition request :: "order_item_request list \<Rightarrow> create_order_request" where
  "request its = \<lparr>user_id = 7, items = its\<rparr>"

section \<open>Properties\<close>

subsection \<open>Storage operations and the loop\<close>

lemmas storage_defs =
  start_transaction_def commit_def rollback_def insert_order_def select_product_for_update_def
  update_product_stock_def insert_order_item_def update_order_total_def raises_def logged_def

lemma process_fetched_Inr:
  assumes "process_fetched E oid t tot item product c = (Inr tot', c')"
  shows "\<exists>p. products (working c) (product_id item) = Some p
           \<and> quantity item \<le> stock p
           \<and> quantity item \<le> fst product
           \<and> \<not> snd (snd product)
           \<and> tot' = fadd E tot (fmul E (float_of E (fst (snd product))) (quantity item))
           \<and> working c' = (working c)
                \<lparr>products := (products (working c))(product_id item \<mapsto>
                     p\<lparr>stock := stock p - quantity item, p_updated_at := t\<rparr>),
                 order_items := order_items (working c) @
                   [\<lparr>i_order_id = oid, i_product_id = product_id item,
                     i_quantity = quantity item,
                     unit_price = float_of E (fst (snd product)),
                     subtotal = fmul E (float_of E (fst (snd product))) (quantity item),
                     i_created_at = t, i_updated_at = t\<rparr>]\<rparr>
           \<and> committed c' = committed c
           \<and> in_transaction c' = in_transaction c
           \<and> log c' = log c @ [UpdateProductStock (quantity item) (product_id item),
                                InsertOrderItem oid (product_id item) (quantity item)]"
  using assms
  by (auto simp: process_fetched_def storage_defs Let_def
           split: if_splits option.splits)

lemma process_item_Inr:
  assumes "process_item E oid t tot item c = (Inr tot', c')"
  shows "\<exists>p. products (working c) (product_id item) = Some p
           \<and> quantity item \<le> stock p
           \<and> \<not> is_deleted p
           \<and> tot' = fadd E tot (fmul E (float_of E (price p)) (quantity item))
           \<and> working c' = (working c)
                \<lparr>products := (products (working c))(product_id item \<mapsto>
                     p\<lparr>stock := stock p - quantity item, p_updated_at := t\<rparr>),
                 order_items := order_items (working c) @
                   [\<lparr>i_order_id = oid, i_product_id = product_id item,
                     i_quantity = quantity item,
                     unit_price = float_of E (price p),
                     subtotal = fmul E (float_of E (price p)) (quantity item),
                     i_created_at = t, i_updated_at = t\<rparr>]\<rparr>
           \<and> committed c' = committed c
           \<and> in_transaction c' = in_transaction c
           \<and> log c' = log c @ [SelectProductForUpdate (product_id item),
                                UpdateProductStock (quantity item) (product_id item),
                                InsertOrderItem oid (product_id item) (quantity item)]"
proof -
  from assms obtain product c1 where
    sel: "select_product_for_update E (product_id item) c = (Inr (Some product), c1)"
    and rest: "process_fetched E oid t tot item product c1 = (Inr tot', c')"
    by (auto simp: process_item_def split: prod.splits sum.splits option.splits)
  from sel obtain p where p: "products (working c) (product_id item) = Some p"
    and prod: "product = (stock p, price p, is_deleted p)"
    and c1: "c1 = logged (SelectProductForUpdate (product_id item)) c"
    by (auto simp: select_product_for_update_def Let_def split: if_splits option.splits)
  from process_fetched_Inr [OF rest] p prod c1 show ?thesis
    by (auto simp: logged_def)
qed

lemma process_item_committed:
  "process_item E oid t tot item c = (r, c') \<Longrightarrow> committed c' = committed c"
  by (auto simp: process_item_def process_fetched_def storage_defs Let_def
           split: if_splits option.splits prod.splits sum.splits)

lemma process_items_committed:
  "process_items E oid t tot its c = (r, c') \<Longrightarrow> committed c' = committed c"
proof (induction its arbitrary: tot c)
  case Nil
  then show ?case by simp
next
  case (Cons item rest)
  obtain r1 c1 where step: "process_item E oid t tot item c = (r1, c1)"
    by (cases "process_item E oid t tot item c")
  have c1: "committed c1 = committed c" by (rule process_item_committed [OF step])
  show ?case
  proof (cases r1)
    case (Inl e)
    with Cons.prems step c1 show ?thesis by simp
  next
    case (Inr tot1)
    with Cons.prems step have "process_items E oid t tot1 rest c1 = (r, c')" by simp
    from Cons.IH [OF this] c1 show ?thesis by simp
  qed
qed

lemma process_items_append:
  "process_items E oid t tot (xs @ ys) c =
     (case process_items E oid t tot xs c of
        (Inl e, c1) \<Rightarrow> (Inl e, c1)
      | (Inr tot1, c1) \<Rightarrow> process_items E oid t tot1 ys c1)"
  by (induction xs arbitrary: tot c) (auto split: prod.splits sum.splits)


lemma requested_Nil [simp]: "requested [] p = 0"
  by (simp add: requested_def)

lemma requested_Cons [simp]:
  "requested (it # its) p = (if product_id it = p then quantity it else 0) + requested its p"
  by (simp add: requested_def)

lemma requested_append [simp]: "requested (xs @ ys) p = requested xs p + requested ys p"
  by (simp add: requested_def)

lemma locks_acquired_append [simp]:
  "locks_acquired (xs @ ys) = locks_acquired xs @ locks_acquired ys"
  by (induction xs rule: locks_acquired.induct) simp_all

lemma locks_acquired_item_stmts [simp]:
  "locks_acquired (concat (map (item_stmts oid) its)) = map product_id its"
  by (induction its) (simp_all add: item_stmts_def)

lemma requested_unreferenced: "p \<notin> product_id ` set its \<Longrightarrow> requested its p = 0"
  by (induction its) auto

text \<open>One pass that ends normally, in terms of the tables only.\<close>

lemma process_item_Inr_products:
  assumes "process_item E oid t tot item c = (Inr tot', c')"
  obtains p where "products (working c) (product_id item) = Some p"
    and "quantity item \<le> stock p" and "\<not> is_deleted p"
    and "products (working c') = (products (working c))(product_id item \<mapsto>
           p\<lparr>stock := stock p - quantity item, p_updated_at := t\<rparr>)"
  using process_item_Inr [OF assms] by auto

lemma process_items_Inr_frame:
  assumes "process_items E oid t tot its c = (Inr tot', c')"
  shows "committed c' = committed c \<and> in_transaction c' = in_transaction c
         \<and> log c' = log c @ concat (map (item_stmts oid) its)
         \<and> orders (working c') = orders (working c)"
  using assms
proof (induction its arbitrary: tot c)
  case Nil
  then show ?case by simp
next
  case (Cons item rest)
  from Cons.prems obtain tot1 c1 where
    step: "process_item E oid t tot item c = (Inr tot1, c1)"
    and loop: "process_items E oid t tot1 rest c1 = (Inr tot', c')"
    by (auto split: prod.splits sum.splits)
  from process_item_Inr [OF step]
  have "committed c1 = committed c" "in_transaction c1 = in_transaction c"
    "log c1 = log c @ item_stmts oid item" "orders (working c1) = orders (working c)"
    by (auto simp: item_stmts_def)
  with Cons.IH [OF loop] show ?case by simp
qed

lemma process_items_Inr_products:
  assumes "process_items E oid t tot its c = (Inr tot', c')"
  shows "products (working c') p =
           map_option (\<lambda>pr. pr\<lparr>stock := stock pr - requested its p,
                                p_updated_at := (if p \<in> product_id ` set its then t
                                                 else p_updated_at pr)\<rparr>)
                      (products (working c) p)"
  using assms
proof (induction its arbitrary: tot c)
  case Nil
  then show ?case by (cases "products (working c) p") simp_all
next
  case (Cons item rest)
  from Cons.prems obtain tot1 c1 where
    step: "process_item E oid t tot item c = (Inr tot1, c1)"
    and loop: "process_items E oid t tot1 rest c1 = (Inr tot', c')"
    by (auto split: prod.splits sum.splits)
  from step obtain p0 where p0: "products (working c) (product_id item) = Some p0"
    and w1: "products (working c1) = (products (working c))(product_id item \<mapsto>
           p0\<lparr>stock := stock p0 - quantity item, p_updated_at := t\<rparr>)"
    by (rule process_item_Inr_products)
  show ?case
  proof (cases "p = product_id item")
    case True
    with Cons.IH [OF loop] p0 w1 show ?thesis by (simp add: algebra_simps)
  next
    case False
    with Cons.IH [OF loop] w1 show ?thesis
      by (cases "products (working c) p") auto
  qed
qed

lemma process_items_Inr_enough:
  assumes "process_items E oid t tot its c = (Inr tot', c')"
    and "p \<in> product_id ` set its"
  shows "\<exists>pr. products (working c) p = Some pr \<and> \<not> is_deleted pr
              \<and> requested its p \<le> stock pr"
  using assms
proof (induction its arbitrary: tot c)
  case Nil
  then show ?case by simp
next
  case (Cons item rest)
  from Cons.prems obtain tot1 c1 where
    step: "process_item E oid t tot item c = (Inr tot1, c1)"
    and loop: "process_items E oid t tot1 rest c1 = (Inr tot', c')"
    by (auto split: prod.splits sum.splits)
  from step obtain p0 where p0: "products (working c) (product_id item) = Some p0"
    and enough: "quantity item \<le> stock p0" and live: "\<not> is_deleted p0"
    and w1: "products (working c1) = (products (working c))(product_id item \<mapsto>
           p0\<lparr>stock := stock p0 - quantity item, p_updated_at := t\<rparr>)"
    by (rule process_item_Inr_products)
  show ?case
  proof (cases "p \<in> product_id ` set rest")
    case True
    from Cons.IH [OF loop True] obtain pr1 where
      pr1: "products (working c1) p = Some pr1" "\<not> is_deleted pr1"
           "requested rest p \<le> stock pr1" by blast
    show ?thesis
    proof (cases "p = product_id item")
      case True
      with pr1 w1 p0 live show ?thesis by auto
    next
      case False
      with pr1 w1 show ?thesis by auto
    qed
  next
    case False
    with Cons.prems(2) have "p = product_id item" by auto
    moreover have "requested rest p = 0" by (rule requested_unreferenced [OF False])
    ultimately show ?thesis using p0 enough live by simp
  qed
qed

lemma process_items_Inr_rows:
  assumes "process_items E oid t tot its c = (Inr tot', c')"
  shows "\<exists>rows. order_items (working c') = order_items (working c) @ rows
               \<and> list_all2 (\<lambda>it row.
                    i_order_id row = oid \<and> i_product_id row = product_id it
                    \<and> i_quantity row = quantity it
                    \<and> (\<exists>pr. products (working c) (product_id it) = Some pr
                           \<and> unit_price row = float_of E (price pr))
                    \<and> subtotal row = fmul E (unit_price row) (i_quantity row)) its rows
               \<and> tot' = foldl (fadd E) tot (map subtotal rows)"
  using assms
proof (induction its arbitrary: tot c)
  case Nil
  then show ?case by simp
next
  case (Cons item rest)
  from Cons.prems obtain tot1 c1 where
    step: "process_item E oid t tot item c = (Inr tot1, c1)"
    and loop: "process_items E oid t tot1 rest c1 = (Inr tot', c')"
    by (auto split: prod.splits sum.splits)
  from process_item_Inr [OF step] obtain p0 where
    p0: "products (working c) (product_id item) = Some p0"
    and tot1: "tot1 = fadd E tot (fmul E (float_of E (price p0)) (quantity item))"
    and w1: "working c1 = (working c)
                \<lparr>products := (products (working c))(product_id item \<mapsto>
                     p0\<lparr>stock := stock p0 - quantity item, p_updated_at := t\<rparr>),
                 order_items := order_items (working c) @
                   [\<lparr>i_order_id = oid, i_product_id = product_id item,
                     i_quantity = quantity item,
                     unit_price = float_of E (price p0),
                     subtotal = fmul E (float_of E (price p0)) (quantity item),
                     i_created_at = t, i_updated_at = t\<rparr>]\<rparr>"
    by auto
  define row0 where "row0 = \<lparr>i_order_id = oid, i_product_id = product_id item,
                     i_quantity = quantity item,
                     unit_price = float_of E (price p0),
                     subtotal = fmul E (float_of E (price p0)) (quantity item),
                     i_created_at = t, i_updated_at = t\<rparr>"
  from Cons.IH [OF loop] obtain rows where
    rows: "order_items (working c') = order_items (working c1) @ rows"
    and rel: "list_all2 (\<lambda>it row.
                    i_order_id row = oid \<and> i_product_id row = product_id it
                    \<and> i_quantity row = quantity it
                    \<and> (\<exists>pr. products (working c1) (product_id it) = Some pr
                           \<and> unit_price row = float_of E (price pr))
                    \<and> subtotal row = fmul E (unit_price row) (i_quantity row)) rest rows"
    and tot': "tot' = foldl (fadd E) tot1 (map subtotal rows)"
    by blast
  have price_kept: "\<exists>pr. products (working c) k = Some pr \<and> u = float_of E (price pr)"
    if "products (working c1) k = Some pr1" "u = float_of E (price pr1)" for k pr1 u
    using that p0 by (cases "k = product_id item") (auto simp: w1)
  have rel': "list_all2 (\<lambda>it row.
                    i_order_id row = oid \<and> i_product_id row = product_id it
                    \<and> i_quantity row = quantity it
                    \<and> (\<exists>pr. products (working c) (product_id it) = Some pr
                           \<and> unit_price row = float_of E (price pr))
                    \<and> subtotal row = fmul E (unit_price row) (i_quantity row)) rest rows"
    by (rule list_all2_mono [OF rel]) (use price_kept in blast)
  have "order_items (working c') = order_items (working c) @ (row0 # rows)"
    using rows by (simp add: w1 row0_def)
  moreover have "list_all2 (\<lambda>it row.
                    i_order_id row = oid \<and> i_product_id row = product_id it
                    \<and> i_quantity row = quantity it
                    \<and> (\<exists>pr. products (working c) (product_id it) = Some pr
                           \<and> unit_price row = float_of E (price pr))
                    \<and> subtotal row = fmul E (unit_price row) (i_quantity row))
                 (item # rest) (row0 # rows)"
    using rel' p0 by (simp add: row0_def)
  moreover have "tot' = foldl (fadd E) tot (map subtotal (row0 # rows))"
    using tot' tot1 by (simp add: row0_def)
  ultimately show ?case by blast
qed

subsection \<open>The handler as a whole\<close>

lemma create_order_try_Inl_committed:
  "create_order_try E order_data c = (Inl e, c1) \<Longrightarrow> committed c1 = committed c"
  by (auto simp: create_order_try_def storage_defs Let_def
           split: if_splits prod.splits sum.splits option.splits
           dest!: process_items_committed)

lemma create_order_Inl:
  assumes "create_order E order_data c = (Inl e, c')"
  obtains e1 c1 where "create_order_try E order_data c = (Inl e1, c1)"
    and "c' = rollback c1" and "\<exists>code d. e = HTTPException code d"
  using assms
  by (auto simp: create_order_def split: prod.splits sum.splits exn.splits)

lemma create_order_Inr:
  assumes "create_order E order_data c = (Inr (oid, num), c')"
  obtains c1 c2 c3 tot c4 where
    "start_transaction E c = (Inr (), c1)"
    and "num = order_number (now_number E) (urandom E)"
    and "insert_order E (user_id order_data) num (strftime_sql (now_current E)) c1
           = (Inr (Some oid), c2)"
    and "oid \<noteq> 0"
    and "process_items E oid (strftime_sql (now_current E)) (fzero E) (items order_data) c2
           = (Inr tot, c3)"
    and "update_order_total E tot oid c3 = (Inr (), c4)"
    and "commit E c4 = (Inr (), c')"
  using assms
  by (auto simp: create_order_def create_order_try_def Let_def
           split: prod.splits sum.splits exn.splits option.splits if_splits)

lemma zero_padded_2 [simp]:
  "zero_padded 2 n = [digit_char (n div 10 mod 10), digit_char (n mod 10)]"
  by (simp add: numeral_2_eq_2)

lemma zero_padded_4 [simp]:
  "zero_padded 4 n =
     [digit_char (n div 10 div 10 div 10 mod 10), digit_char (n div 10 div 10 mod 10),
      digit_char (n div 10 mod 10), digit_char (n mod 10)]"
proof -
  have four: "(4::nat) = Suc (Suc (Suc (Suc 0)))" by simp
  show ?thesis by (subst four) simp
qed

lemmas handler_defs =
  post_api_orders_def create_order_def create_order_try_def process_item_def
  process_fetched_def CreateOrderRequest_valid_def OrderItemRequest_valid_def
  order_number_def strftime_compact_def strftime_sql_def hex_byte_def digit_char_def
  total_amount_default_def Let_def

lemmas shop_defs =
  shop_env_def shop_conn_def shop_tables_def shop_products_def line_def request_def

subsection \<open>A call that returns normally\<close>

lemma create_order_Inr_frame:
  assumes "create_order E order_data c = (Inr (oid, num), c')"
  shows "\<not> in_transaction c \<and> lastrowid E = Some oid \<and> oid \<noteq> 0
         \<and> num = order_number (now_number E) (urandom E)
         \<and> committed c' = working c' \<and> \<not> in_transaction c'
         \<and> log c' = log c @ [StartTransaction, InsertOrder (user_id order_data) num]
                     @ concat (map (item_stmts oid) (items order_data))
                     @ [UpdateOrderTotal oid, Commit]"
proof -
  from assms obtain c1 c2 c3 tot c4 where
    st: "start_transaction E c = (Inr (), c1)"
    and num: "num = order_number (now_number E) (urandom E)"
    and ins: "insert_order E (user_id order_data) num (strftime_sql (now_current E)) c1
           = (Inr (Some oid), c2)"
    and oid: "oid \<noteq> 0"
    and loop: "process_items E oid (strftime_sql (now_current E)) (fzero E) (items order_data) c2
           = (Inr tot, c3)"
    and upd: "update_order_total E tot oid c3 = (Inr (), c4)"
    and com: "commit E c4 = (Inr (), c')"
    by (rule create_order_Inr)
  from st have c1: "\<not> in_transaction c" "log c1 = log c @ [StartTransaction]"
    by (auto simp: storage_defs split: if_splits)
  from ins have c2: "lastrowid E = Some oid"
    "log c2 = log c1 @ [InsertOrder (user_id order_data) num]"
    by (auto simp: storage_defs Let_def split: if_splits)
  from process_items_Inr_frame [OF loop]
  have c3: "log c3 = log c2 @ concat (map (item_stmts oid) (items order_data))" by simp
  from upd have c4: "log c4 = log c3 @ [UpdateOrderTotal oid]"
    by (auto simp: storage_defs Let_def split: if_splits)
  from com have c5: "log c' = log c4 @ [Commit]" "committed c' = working c'"
    "\<not> in_transaction c'"
    by (auto simp: storage_defs split: if_splits)
  from c1 c2 c3 c4 c5 oid num show ?thesis by simp
qed

lemma create_order_Inr_products:
  assumes "create_order E order_data c = (Inr (oid, num), c')"
  shows "products (committed c') p =
           map_option (\<lambda>pr. pr\<lparr>stock := stock pr - requested (items order_data) p,
                                p_updated_at := (if p \<in> product_id ` set (items order_data)
                                                 then strftime_sql (now_current E)
                                                 else p_updated_at pr)\<rparr>)
                      (products (working c) p)"
    and "p \<in> product_id ` set (items order_data) \<Longrightarrow>
           \<exists>pr. products (working c) p = Some pr \<and> \<not> is_deleted pr
              \<and> requested (items order_data) p \<le> stock pr"
proof -
  from assms obtain c1 c2 c3 tot c4 where
    st: "start_transaction E c = (Inr (), c1)"
    and ins: "insert_order E (user_id order_data) num (strftime_sql (now_current E)) c1
           = (Inr (Some oid), c2)"
    and loop: "process_items E oid (strftime_sql (now_current E)) (fzero E) (items order_data) c2
           = (Inr tot, c3)"
    and upd: "update_order_total E tot oid c3 = (Inr (), c4)"
    and com: "commit E c4 = (Inr (), c')"
    by (rule create_order_Inr)
  from st ins have c2: "products (working c2) = products (working c)"
    by (auto simp: storage_defs Let_def split: if_splits)
  from upd com have c5: "products (committed c') = products (working c3)"
    by (auto simp: storage_defs Let_def split: if_splits)
  show "products (committed c') p =
           map_option (\<lambda>pr. pr\<lparr>stock := stock pr - requested (items order_data) p,
                                p_updated_at := (if p \<in> product_id ` set (items order_data)
                                                 then strftime_sql (now_current E)
                                                 else p_updated_at pr)\<rparr>)
                      (products (working c) p)"
    using process_items_Inr_products [OF loop, of p] c2 c5 by simp
  show "\<exists>pr. products (working c) p = Some pr \<and> \<not> is_deleted pr
              \<and> requested (items order_data) p \<le> stock pr"
    if "p \<in> product_id ` set (items order_data)"
    using process_items_Inr_enough [OF loop that] c2 by simp
qed

lemma create_order_Inr_rows:
  assumes "create_order E order_data c = (Inr (oid, num), c')"
  shows "\<exists>rows. order_items (committed c') = order_items (working c) @ rows
           \<and> list_all2 (\<lambda>it row.
                i_order_id row = oid \<and> i_product_id row = product_id it
                \<and> i_quantity row = quantity it
                \<and> (\<exists>pr. products (working c) (product_id it) = Some pr
                       \<and> unit_price row = float_of E (price pr))
                \<and> subtotal row = fmul E (unit_price row) (i_quantity row))
              (items order_data) rows
           \<and> orders (committed c') =
               map (\<lambda>r. if o_id r = oid
                         then r\<lparr>total_amount := foldl (fadd E) (fzero E) (map subtotal rows)\<rparr>
                         else r) (orders (working c))
               @ [\<lparr>o_id = oid, o_user_id = user_id order_data, o_number = num,
                   o_status = ''pending'',
                   total_amount = foldl (fadd E) (fzero E) (map subtotal rows),
                   o_created_at = strftime_sql (now_current E),
                   o_updated_at = strftime_sql (now_current E)\<rparr>]"
proof -
  from assms obtain c1 c2 c3 tot c4 where
    st: "start_transaction E c = (Inr (), c1)"
    and ins: "insert_order E (user_id order_data) num (strftime_sql (now_current E)) c1
           = (Inr (Some oid), c2)"
    and loop: "process_items E oid (strftime_sql (now_current E)) (fzero E) (items order_data) c2
           = (Inr tot, c3)"
    and upd: "update_order_total E tot oid c3 = (Inr (), c4)"
    and com: "commit E c4 = (Inr (), c')"
    by (rule create_order_Inr)
  from st ins have c2: "products (working c2) = products (working c)"
    "order_items (working c2) = order_items (working c)"
    "orders (working c2) = orders (working c) @
       [\<lparr>o_id = oid, o_user_id = user_id order_data, o_number = num,
         o_status = ''pending'', total_amount = total_amount_default E,
         o_created_at = strftime_sql (now_current E),
         o_updated_at = strftime_sql (now_current E)\<rparr>]"
    by (auto simp: storage_defs Let_def split: if_splits)
  from upd com have c5: "order_items (committed c') = order_items (working c3)"
    "orders (committed c') =
       map (\<lambda>r. if o_id r = oid then r\<lparr>total_amount := tot\<rparr> else r) (orders (working c3))"
    by (auto simp: storage_defs Let_def split: if_splits)
  from process_items_Inr_frame [OF loop]
  have c3: "orders (working c3) = orders (working c2)" by simp
  from process_items_Inr_rows [OF loop] obtain rows where
    rows: "order_items (working c3) = order_items (working c2) @ rows"
    and rel: "list_all2 (\<lambda>it row.
                i_order_id row = oid \<and> i_product_id row = product_id it
                \<and> i_quantity row = quantity it
                \<and> (\<exists>pr. products (working c2) (product_id it) = Some pr
                       \<and> unit_price row = float_of E (price pr))
                \<and> subtotal row = fmul E (unit_price row) (i_quantity row))
              (items order_data) rows"
    and tot: "tot = foldl (fadd E) (fzero E) (map subtotal rows)"
    by blast
  from rows rel tot c2 c3 c5 show ?thesis
    by (intro exI [of _ rows]) simp
qed

subsection \<open>Claims\<close>

text \<open>
  C1. Whenever \<^verbatim>\<open>create_order\<close> ends in a failure, whatever its kind and the step it
  comes from (a check of the handler, no generated id, the conditional update, a storage
  operation that raises, the commit itself), the failure reported is an
  \<^verbatim>\<open>HTTPException\<close>, the last storage operation before it is the rollback, the
  committed tables are those from before the call, the connection holds no write of its
  own any more and no transaction is open: nothing is committed in part.
\<close>

theorem create_order_failure_rolls_back:
  assumes "create_order E order_data c = (Inl e, c')"
  shows "committed c' = committed c \<and> working c' = committed c
         \<and> \<not> in_transaction c' \<and> last (log c') = Rollback
         \<and> (\<exists>code d. e = HTTPException code d)"
proof -
  from assms obtain e1 c1 where
    body: "create_order_try E order_data c = (Inl e1, c1)"
    and c': "c' = rollback c1" and e: "\<exists>code d. e = HTTPException code d"
    by (rule create_order_Inl)
  have "committed c1 = committed c" by (rule create_order_try_Inl_committed [OF body])
  with c' e show ?thesis by (simp add: rollback_def logged_def)
qed

text \<open>In the shop, the first line of the request is reserved and written, the second
  one asks for more than the stock: the reservation of the first is undone.\<close>

theorem create_order_failure_rolls_back_witness:
  "fst (create_order shop_env (request [line 1 3, line 2 5]) shop_conn)
     = Inl (HTTPException 400 (StockShort 2 2 5))
   \<and> committed (snd (create_order shop_env (request [line 1 3, line 2 5]) shop_conn))
     = committed shop_conn
   \<and> working (snd (create_order shop_env (request [line 1 3, line 2 5]) shop_conn))
     = committed shop_conn"
proof -
  have run: "fst (create_order shop_env (request [line 1 3, line 2 5]) shop_conn)
     = Inl (HTTPException 400 (StockShort 2 2 5))"
    by (simp add: handler_defs storage_defs shop_defs)
  then have "create_order shop_env (request [line 1 3, line 2 5]) shop_conn
     = (Inl (HTTPException 400 (StockShort 2 2 5)),
        snd (create_order shop_env (request [line 1 3, line 2 5]) shop_conn))"
    by (simp add: prod_eq_iff)
  from create_order_failure_rolls_back [OF this] run show ?thesis by simp
qed

lemma process_item_guard:
  assumes "process_item E oid t tot item c = (r, c')"
  shows "products (working c') = products (working c)
         \<or> (\<exists>p ss. products (working c) (product_id item) = Some p
               \<and> \<not> is_deleted p \<and> quantity item \<le> stock p
               \<and> products (working c') = (products (working c))(product_id item \<mapsto>
                     p\<lparr>stock := stock p - quantity item, p_updated_at := t\<rparr>)
               \<and> log c' = log c @ SelectProductForUpdate (product_id item)
                                # UpdateProductStock (quantity item) (product_id item) # ss)"
  using assms
  by (auto simp: process_item_def process_fetched_def storage_defs Let_def
           split: if_splits option.splits prod.splits sum.splits)

text \<open>
  C2. (1) One pass of the loop changes the \<^verbatim>\<open>products\<close> table only by decrementing
  the stock of the line's product by the line's quantity, and only when the locked read
  of that same pass, in the same transaction, found the product live with at least that
  stock; the locked read and the conditional update are the first two operations of the
  pass. (2) After a call that returns normally on a connection without pending writes,
  the committed stock of every product is its former stock less the quantity the request
  asks of it (the requested quantity itself for a product named by one line), and it is
  not negative for a product the request names. (3) Whatever the outcome, if no
  committed stock was negative before the call, none is after it, committed or as the
  connection sees it.
\<close>

theorem stock_decrement_guarded:
  "(process_item E oid t tot item c = (r, c1) \<longrightarrow>
      products (working c1) = products (working c)
      \<or> (\<exists>p ss. products (working c) (product_id item) = Some p
            \<and> \<not> is_deleted p \<and> quantity item \<le> stock p
            \<and> products (working c1) = (products (working c))(product_id item \<mapsto>
                  p\<lparr>stock := stock p - quantity item, p_updated_at := t\<rparr>)
            \<and> log c1 = log c @ SelectProductForUpdate (product_id item)
                             # UpdateProductStock (quantity item) (product_id item) # ss))
   \<and> (create_order E order_data c = (Inr (oid, num), c') \<and> working c = committed c \<longrightarrow>
        (\<forall>p pr. products (committed c) p = Some pr \<longrightarrow>
           (\<exists>pr'. products (committed c') p = Some pr'
              \<and> stock pr' = stock pr - requested (items order_data) p
              \<and> (p \<in> product_id ` set (items order_data) \<longrightarrow> 0 \<le> stock pr'))))
   \<and> (create_order E order_data c = (res, c') \<and> working c = committed c
        \<and> (\<forall>p pr. products (committed c) p = Some pr \<longrightarrow> 0 \<le> stock pr) \<longrightarrow>
        (\<forall>p pr. products (committed c') p = Some pr \<longrightarrow> 0 \<le> stock pr)
        \<and> (\<forall>p pr. products (working c') p = Some pr \<longrightarrow> 0 \<le> stock pr))"
proof (intro conjI impI)
  assume "process_item E oid t tot item c = (r, c1)"
  then show "products (working c1) = products (working c)
      \<or> (\<exists>p ss. products (working c) (product_id item) = Some p
            \<and> \<not> is_deleted p \<and> quantity item \<le> stock p
            \<and> products (working c1) = (products (working c))(product_id item \<mapsto>
                  p\<lparr>stock := stock p - quantity item, p_updated_at := t\<rparr>)
            \<and> log c1 = log c @ SelectProductForUpdate (product_id item)
                             # UpdateProductStock (quantity item) (product_id item) # ss)"
    by (rule process_item_guard)
next
  assume a: "create_order E order_data c = (Inr (oid, num), c') \<and> working c = committed c"
  show "\<forall>p pr. products (committed c) p = Some pr \<longrightarrow>
           (\<exists>pr'. products (committed c') p = Some pr'
              \<and> stock pr' = stock pr - requested (items order_data) p
              \<and> (p \<in> product_id ` set (items order_data) \<longrightarrow> 0 \<le> stock pr'))"
  proof (intro allI impI)
    fix p pr
    assume pr: "products (committed c) p = Some pr"
    from a have run: "create_order E order_data c = (Inr (oid, num), c')"
      and same: "working c = committed c" by simp_all
    let ?pr' = "pr\<lparr>stock := stock pr - requested (items order_data) p,
                    p_updated_at := (if p \<in> product_id ` set (items order_data)
                                     then strftime_sql (now_current E)
                                     else p_updated_at pr)\<rparr>"
    have "products (committed c') p = Some ?pr'"
      using create_order_Inr_products(1) [OF run, of p] pr same by simp
    moreover have "0 \<le> stock ?pr'" if "p \<in> product_id ` set (items order_data)"
      using create_order_Inr_products(2) [OF run that] pr same by simp
    ultimately show "\<exists>pr'. products (committed c') p = Some pr'
              \<and> stock pr' = stock pr - requested (items order_data) p
              \<and> (p \<in> product_id ` set (items order_data) \<longrightarrow> 0 \<le> stock pr')"
      by (intro exI [of _ ?pr']) simp
  qed
next
  assume a: "create_order E order_data c = (res, c') \<and> working c = committed c
        \<and> (\<forall>p pr. products (committed c) p = Some pr \<longrightarrow> 0 \<le> stock pr)"
  then have run: "create_order E order_data c = (res, c')"
    and same: "working c = committed c"
    and inv: "\<And>p pr. products (committed c) p = Some pr \<Longrightarrow> 0 \<le> stock pr"
    by simp_all
  have both: "(\<forall>p pr. products (committed c') p = Some pr \<longrightarrow> 0 \<le> stock pr)
        \<and> (\<forall>p pr. products (working c') p = Some pr \<longrightarrow> 0 \<le> stock pr)"
  proof (cases res)
    case (Inl e)
    with run obtain e1 c1 where body: "create_order_try E order_data c = (Inl e1, c1)"
      and c': "c' = rollback c1"
      by (auto elim: create_order_Inl)
    have "committed c1 = committed c" by (rule create_order_try_Inl_committed [OF body])
    with c' have "committed c' = committed c" "working c' = committed c"
      by (simp_all add: rollback_def logged_def)
    with inv show ?thesis by simp
  next
    case (Inr ok)
    obtain oid' num' where ok: "ok = (oid', num')" by (cases ok)
    with Inr run have run': "create_order E order_data c = (Inr (oid', num'), c')" by simp
    have k: "committed c' = working c'" using create_order_Inr_frame [OF run'] by simp
    have "0 \<le> stock pr'" if pr': "products (committed c') p = Some pr'" for p pr'
    proof -
      from create_order_Inr_products(1) [OF run', of p] pr' same
      obtain pr where pr: "products (committed c) p = Some pr"
        and st: "stock pr' = stock pr - requested (items order_data) p"
        by (cases "products (committed c) p") auto
      show ?thesis
      proof (cases "p \<in> product_id ` set (items order_data)")
        case True
        from create_order_Inr_products(2) [OF run' True] pr same st show ?thesis by simp
      next
        case False
        then have "requested (items order_data) p = 0" by (rule requested_unreferenced)
        with st inv [OF pr] show ?thesis by simp
      qed
    qed
    with k show ?thesis by simp
  qed
  from both show "\<forall>p pr. products (committed c') p = Some pr \<longrightarrow> 0 \<le> stock pr"
    by (rule conjunct1)
  from both show "\<forall>p pr. products (working c') p = Some pr \<longrightarrow> 0 \<le> stock pr"
    by (rule conjunct2)
qed

lemma shop_order_1_3:
  "fst (create_order shop_env (request [line 1 3]) shop_conn)
     = Inr (1, ''ORD20240517090307ab07'')"
  by (simp add: handler_defs storage_defs shop_defs)

theorem stock_decrement_guarded_witness:
  "create_order shop_env (request [line 1 3]) shop_conn
     = (Inr (1, ''ORD20240517090307ab07''),
        snd (create_order shop_env (request [line 1 3]) shop_conn))
   \<and> map_option stock (products (committed shop_conn) 1) = Some 5
   \<and> map_option stock
        (products (committed (snd (create_order shop_env (request [line 1 3]) shop_conn))) 1)
     = Some 2"
proof -
  let ?run = "create_order shop_env (request [line 1 3]) shop_conn"
  let ?pass = "process_item shop_env 1 [] 0 (line 1 3) shop_conn"
  have run: "?run = (Inr (1, ''ORD20240517090307ab07''), snd ?run)"
    using shop_order_1_3 by (simp add: prod_eq_iff)
  have pass: "?pass = (fst ?pass, snd ?pass)" by simp
  have same: "working shop_conn = committed shop_conn" by (simp add: shop_conn_def)
  have p1: "products (committed shop_conn) 1
              = Some \<lparr>stock = 5, price = 1000, is_deleted = False, p_updated_at = []\<rparr>"
    by (simp add: shop_defs)
  have inv: "\<forall>p pr. products (committed shop_conn) p = Some pr \<longrightarrow> 0 \<le> stock pr"
    by (auto simp: shop_defs split: if_splits)
  note T = stock_decrement_guarded [where E = shop_env and oid = 1 and t = "[]"
      and tot = 0 and item = "line 1 3" and c = shop_conn and r = "fst ?pass"
      and ?c1.0 = "snd ?pass" and order_data = "request [line 1 3]"
      and num = "''ORD20240517090307ab07''" and c' = "snd ?run"
      and res = "Inr (1, ''ORD20240517090307ab07'')"]
  from T pass have "products (working (snd ?pass)) = products (working shop_conn)
      \<or> (\<exists>p ss. products (working shop_conn) (product_id (line 1 3)) = Some p
            \<and> \<not> is_deleted p \<and> quantity (line 1 3) \<le> stock p
            \<and> products (working (snd ?pass)) = (products (working shop_conn))
                  (product_id (line 1 3) \<mapsto>
                  p\<lparr>stock := stock p - quantity (line 1 3), p_updated_at := []\<rparr>)
            \<and> log (snd ?pass) = log shop_conn @ SelectProductForUpdate (product_id (line 1 3))
                             # UpdateProductStock (quantity (line 1 3)) (product_id (line 1 3)) # ss)"
    by blast
  from T run same inv
  have "\<forall>p pr. products (committed (snd ?run)) p = Some pr \<longrightarrow> 0 \<le> stock pr"
    by blast
  from T run same p1
  have "\<exists>pr'. products (committed (snd ?run)) 1 = Some pr'
          \<and> stock pr' = 5 - requested (items (request [line 1 3])) 1"
    by fastforce
  then have "map_option stock (products (committed (snd ?run)) 1) = Some 2"
    by (auto simp: request_def line_def)
  with run p1 show ?thesis by simp
qed

lemma list_all2_all_right:
  "list_all2 P xs ys \<Longrightarrow> (\<And>x y. P x y \<Longrightarrow> Q y) \<Longrightarrow> \<forall>y \<in> set ys. Q y"
  by (induction rule: list_all2_induct) auto

text \<open>
  C3. After a call that returns normally on a connection without pending writes, the
  committed \<^verbatim>\<open>order_items\<close> table is the former one followed by one row per line of
  the request, in the order of the lines; each such row carries the order id, the line's
  product and quantity, as unit price the float of the price the product had in the
  store (the placement never writes a price, so this is the price of the locked read),
  and as subtotal that unit price times the quantity. The committed \<^verbatim>\<open>orders\<close>
  table ends with the new order row, and every order row with the returned id has as
  total amount the sum of the subtotals of these rows, added from \<^verbatim>\<open>0.0\<close> in the
  order of the lines. When no former line row refers to the returned id, these rows are
  all the line rows of the order.
\<close>

theorem order_total_is_sum_of_subtotals:
  assumes "create_order E order_data c = (Inr (oid, num), c')"
    and "working c = committed c"
  shows "\<exists>rows total_amount'.
           order_items (committed c') = order_items (committed c) @ rows
           \<and> total_amount' = foldl (fadd E) (fzero E) (map subtotal rows)
           \<and> list_all2 (\<lambda>it row.
                i_order_id row = oid \<and> i_product_id row = product_id it
                \<and> i_quantity row = quantity it
                \<and> (\<exists>pr. products (committed c) (product_id it) = Some pr
                       \<and> unit_price row = float_of E (price pr))
                \<and> subtotal row = fmul E (unit_price row) (i_quantity row))
              (items order_data) rows
           \<and> orders (committed c') =
               map (\<lambda>r. if o_id r = oid then r\<lparr>total_amount := total_amount'\<rparr> else r)
                   (orders (committed c))
               @ [\<lparr>o_id = oid, o_user_id = user_id order_data, o_number = num,
                   o_status = ''pending'', total_amount = total_amount',
                   o_created_at = strftime_sql (now_current E),
                   o_updated_at = strftime_sql (now_current E)\<rparr>]
           \<and> (\<forall>ord \<in> set (orders (committed c')). o_id ord = oid \<longrightarrow>
                 total_amount ord = total_amount')
           \<and> ((\<forall>r \<in> set (order_items (committed c)). i_order_id r \<noteq> oid) \<longrightarrow>
                 filter (\<lambda>r. i_order_id r = oid) (order_items (committed c')) = rows)"
proof -
  from create_order_Inr_rows [OF assms(1)] assms(2) obtain rows where
    items': "order_items (committed c') = order_items (committed c) @ rows"
    and rel: "list_all2 (\<lambda>it row.
                i_order_id row = oid \<and> i_product_id row = product_id it
                \<and> i_quantity row = quantity it
                \<and> (\<exists>pr. products (committed c) (product_id it) = Some pr
                       \<and> unit_price row = float_of E (price pr))
                \<and> subtotal row = fmul E (unit_price row) (i_quantity row))
              (items order_data) rows"
    and orders': "orders (committed c') =
               map (\<lambda>r. if o_id r = oid
                         then r\<lparr>total_amount := foldl (fadd E) (fzero E) (map subtotal rows)\<rparr>
                         else r) (orders (committed c))
               @ [\<lparr>o_id = oid, o_user_id = user_id order_data, o_number = num,
                   o_status = ''pending'',
                   total_amount = foldl (fadd E) (fzero E) (map subtotal rows),
                   o_created_at = strftime_sql (now_current E),
                   o_updated_at = strftime_sql (now_current E)\<rparr>]"
    by auto
  have mine: "\<forall>row \<in> set rows. i_order_id row = oid"
    by (rule list_all2_all_right [OF rel]) simp
  have totals: "\<forall>ord \<in> set (orders (committed c')). o_id ord = oid \<longrightarrow>
                 total_amount ord = foldl (fadd E) (fzero E) (map subtotal rows)"
  proof (intro ballI impI)
    fix ord
    assume mem: "ord \<in> set (orders (committed c'))"
    assume mine: "o_id ord = oid"
    from mem consider
      r where "r \<in> set (orders (committed c))"
        "ord = (if o_id r = oid
                then r\<lparr>total_amount := foldl (fadd E) (fzero E) (map subtotal rows)\<rparr>
                else r)"
      | "total_amount ord = foldl (fadd E) (fzero E) (map subtotal rows)"
      unfolding orders' by auto
    then show "total_amount ord = foldl (fadd E) (fzero E) (map subtotal rows)"
    proof cases
      case 1
      show ?thesis
      proof (cases "o_id r = oid")
        case True
        with 1 show ?thesis by simp
      next
        case False
        with 1 have "ord = r" by simp
        with mine False show ?thesis by simp
      qed
    next
      case 2
      then show ?thesis .
    qed
  qed
  have lines: "filter (\<lambda>r. i_order_id r = oid) (order_items (committed c')) = rows"
    if "\<forall>r \<in> set (order_items (committed c)). i_order_id r \<noteq> oid"
    using that mine by (simp add: items' filter_empty_conv filter_id_conv)
  show ?thesis
  proof (intro exI conjI)
    show "order_items (committed c') = order_items (committed c) @ rows" by (fact items')
    show "foldl (fadd E) (fzero E) (map subtotal rows)
            = foldl (fadd E) (fzero E) (map subtotal rows)" by (rule refl)
    show "list_all2 (\<lambda>it row.
                i_order_id row = oid \<and> i_product_id row = product_id it
                \<and> i_quantity row = quantity it
                \<and> (\<exists>pr. products (committed c) (product_id it) = Some pr
                       \<and> unit_price row = float_of E (price pr))
                \<and> subtotal row = fmul E (unit_price row) (i_quantity row))
              (items order_data) rows" by (fact rel)
    show "orders (committed c') =
               map (\<lambda>r. if o_id r = oid
                         then r\<lparr>total_amount := foldl (fadd E) (fzero E) (map subtotal rows)\<rparr>
                         else r) (orders (committed c))
               @ [\<lparr>o_id = oid, o_user_id = user_id order_data, o_number = num,
                   o_status = ''pending'',
                   total_amount = foldl (fadd E) (fzero E) (map subtotal rows),
                   o_created_at = strftime_sql (now_current E),
                   o_updated_at = strftime_sql (now_current E)\<rparr>]" by (fact orders')
    show "\<forall>ord \<in> set (orders (committed c')). o_id ord = oid \<longrightarrow>
                 total_amount ord = foldl (fadd E) (fzero E) (map subtotal rows)"
      by (fact totals)
    show "(\<forall>r \<in> set (order_items (committed c)). i_order_id r \<noteq> oid) \<longrightarrow>
            filter (\<lambda>r. i_order_id r = oid) (order_items (committed c')) = rows"
      using lines by blast
  qed
qed


theorem order_total_is_sum_of_subtotals_witness:
  "create_order shop_env (request [line 1 3, line 2 1]) shop_conn
     = (Inr (1, ''ORD20240517090307ab07''),
        snd (create_order shop_env (request [line 1 3, line 2 1]) shop_conn))
   \<and> map total_amount
         (orders (committed (snd (create_order shop_env (request [line 1 3, line 2 1]) shop_conn))))
       = [3250]
   \<and> map subtotal
         (order_items (committed (snd (create_order shop_env (request [line 1 3, line 2 1]) shop_conn))))
       = [3000, 250]"
proof -
  let ?run = "create_order shop_env (request [line 1 3, line 2 1]) shop_conn"
  have "fst ?run = Inr (1, ''ORD20240517090307ab07'')"
    by (simp add: handler_defs storage_defs shop_defs)
  then have run: "?run = (Inr (1, ''ORD20240517090307ab07''), snd ?run)"
    by (simp add: prod_eq_iff)
  have same: "working shop_conn = committed shop_conn" by (simp add: shop_conn_def)
  from order_total_is_sum_of_subtotals [OF run same] obtain rows tot where
    items': "order_items (committed (snd ?run)) = order_items (committed shop_conn) @ rows"
    and tot: "tot = foldl (fadd shop_env) (fzero shop_env) (map subtotal rows)"
    and rel: "list_all2 (\<lambda>it row.
                i_order_id row = 1 \<and> i_product_id row = product_id it
                \<and> i_quantity row = quantity it
                \<and> (\<exists>pr. products (committed shop_conn) (product_id it) = Some pr
                       \<and> unit_price row = float_of shop_env (price pr))
                \<and> subtotal row = fmul shop_env (unit_price row) (i_quantity row))
              (items (request [line 1 3, line 2 1])) rows"
    and orders': "orders (committed (snd ?run)) =
               map (\<lambda>r. if o_id r = 1 then r\<lparr>total_amount := tot\<rparr> else r)
                   (orders (committed shop_conn))
               @ [\<lparr>o_id = 1, o_user_id = user_id (request [line 1 3, line 2 1]),
                   o_number = ''ORD20240517090307ab07'',
                   o_status = ''pending'', total_amount = tot,
                   o_created_at = strftime_sql (now_current shop_env),
                   o_updated_at = strftime_sql (now_current shop_env)\<rparr>]"
    by blast
  from rel have subs: "map subtotal rows = [3000, 250]"
    by (auto simp: request_def line_def shop_defs list_all2_Cons1)
  with tot have "tot = 3250" by (simp add: shop_env_def)
  with orders' items' subs run show ?thesis by (simp add: shop_conn_def shop_tables_def)
qed

lemma process_item_checks:
  assumes "\<not> raises E c"
  shows "process_item E oid t tot item c =
     (case products (working c) (product_id item) of
        None \<Rightarrow> (Inl (HTTPException 404 (ProductMissing (product_id item))),
                 logged (SelectProductForUpdate (product_id item)) c)
      | Some p \<Rightarrow>
          if is_deleted p
          then (Inl (HTTPException 400 (ProductDisabled (product_id item))),
                logged (SelectProductForUpdate (product_id item)) c)
          else if stock p < quantity item
          then (Inl (HTTPException 400 (StockShort (product_id item) (stock p) (quantity item))),
                logged (SelectProductForUpdate (product_id item)) c)
          else process_fetched E oid t tot item (stock p, price p, is_deleted p)
                 (logged (SelectProductForUpdate (product_id item)) c))"
  using assms
  by (simp add: process_item_def select_product_for_update_def process_fetched_def Let_def
           split: option.splits)

lemma create_order_line_raises:
  assumes "start_transaction E c = (Inr (), c1)"
    and "insert_order E (user_id order_data) (order_number (now_number E) (urandom E))
           (strftime_sql (now_current E)) c1 = (Inr (Some oid), c2)"
    and "oid \<noteq> 0"
    and "items order_data = pre @ item # post"
    and "process_items E oid (strftime_sql (now_current E)) (fzero E) pre c2 = (Inr tot, c3)"
    and "process_item E oid (strftime_sql (now_current E)) tot item c3
           = (Inl (HTTPException code d), c4)"
  shows "create_order E order_data c = (Inl (HTTPException code d), rollback c4)"
  using assms
  by (simp add: create_order_def create_order_try_def Let_def process_items_append)

text \<open>
  C4. Take a call that has opened its transaction and inserted the order row, and a
  line of the request whose predecessors all passed. When the locked read of the line
  does not raise, the call goes by what the read finds, in this order: no row, and it
  fails with status 404 naming the product; else a row flagged deleted, and it fails with
  status 400 for a disabled product; else a stock below the line's quantity, and it fails
  with status 400 reporting the product, the stock read and the quantity asked. In each
  case the locked read is the last operation before the rollback, and nothing later in
  the request is looked at.
\<close>

theorem line_checks_in_order:
  assumes "start_transaction E c = (Inr (), c1)"
    and "insert_order E (user_id order_data) (order_number (now_number E) (urandom E))
           (strftime_sql (now_current E)) c1 = (Inr (Some oid), c2)"
    and "oid \<noteq> 0"
    and "items order_data = pre @ item # post"
    and "process_items E oid (strftime_sql (now_current E)) (fzero E) pre c2 = (Inr tot, c3)"
    and "\<not> raises E c3"
  shows "(products (working c3) (product_id item) = None \<longrightarrow>
            create_order E order_data c =
              (Inl (HTTPException 404 (ProductMissing (product_id item))),
               rollback (logged (SelectProductForUpdate (product_id item)) c3)))
       \<and> (\<forall>p. products (working c3) (product_id item) = Some p \<and> is_deleted p \<longrightarrow>
            create_order E order_data c =
              (Inl (HTTPException 400 (ProductDisabled (product_id item))),
               rollback (logged (SelectProductForUpdate (product_id item)) c3)))
       \<and> (\<forall>p. products (working c3) (product_id item) = Some p \<and> \<not> is_deleted p
              \<and> stock p < quantity item \<longrightarrow>
            create_order E order_data c =
              (Inl (HTTPException 400
                     (StockShort (product_id item) (stock p) (quantity item))),
               rollback (logged (SelectProductForUpdate (product_id item)) c3)))"
proof (intro conjI allI impI)
  note pass = process_item_checks [OF assms(6), of oid "strftime_sql (now_current E)" tot item]
  note up = create_order_line_raises [OF assms(1-5)]
  {
    assume "products (working c3) (product_id item) = None"
    with pass show "create_order E order_data c =
              (Inl (HTTPException 404 (ProductMissing (product_id item))),
               rollback (logged (SelectProductForUpdate (product_id item)) c3))"
      by (intro up) simp
  next
    fix p
    assume "products (working c3) (product_id item) = Some p \<and> is_deleted p"
    with pass show "create_order E order_data c =
              (Inl (HTTPException 400 (ProductDisabled (product_id item))),
               rollback (logged (SelectProductForUpdate (product_id item)) c3))"
      by (intro up) simp
  next
    fix p
    assume "products (working c3) (product_id item) = Some p \<and> \<not> is_deleted p
              \<and> stock p < quantity item"
    with pass show "create_order E order_data c =
              (Inl (HTTPException 400
                     (StockShort (product_id item) (stock p) (quantity item))),
               rollback (logged (SelectProductForUpdate (product_id item)) c3))"
      by (intro up) simp
  }
qed


text \<open>In the shop: an unknown product, the soft-deleted product 3, and a second line
  that asks 5 of product 2, which has 2.\<close>

theorem line_checks_in_order_witness:
  "fst (create_order shop_env (request [line 999999 1]) shop_conn)
     = Inl (HTTPException 404 (ProductMissing 999999))
   \<and> fst (create_order shop_env (request [line 3 1]) shop_conn)
     = Inl (HTTPException 400 (ProductDisabled 3))
   \<and> fst (create_order shop_env (request [line 1 3, line 2 5]) shop_conn)
     = Inl (HTTPException 400 (StockShort 2 2 5))"
proof -
  let ?num = "order_number (now_number shop_env) (urandom shop_env)"
  let ?t = "strftime_sql (now_current shop_env)"
  let ?c1 = "snd (start_transaction shop_env shop_conn)"
  let ?c2 = "snd (insert_order shop_env 7 ?num ?t ?c1)"
  let ?c3 = "snd (process_items shop_env 1 ?t (fzero shop_env) [line 1 3] ?c2)"
  have h1: "start_transaction shop_env shop_conn = (Inr (), ?c1)"
    by (simp add: storage_defs shop_defs)
  have h2: "insert_order shop_env (user_id (request its)) ?num ?t ?c1 = (Inr (Some 1), ?c2)"
    for its
    by (simp add: storage_defs shop_defs)
  have h3: "(1::int) \<noteq> 0" by simp
  have h5: "process_items shop_env 1 ?t (fzero shop_env) [] ?c2 = (Inr (fzero shop_env), ?c2)"
    by simp
  have h6: "\<not> raises shop_env ?c2" by (simp add: storage_defs shop_defs)
  have a4: "items (request [line 999999 1]) = [] @ line 999999 1 # []"
    by (simp add: request_def)
  have a: "products (working ?c2) (product_id (line 999999 1)) = None"
    by (simp add: storage_defs shop_defs)
  from line_checks_in_order [OF h1 h2 h3 a4 h5 h6] a
  have A: "fst (create_order shop_env (request [line 999999 1]) shop_conn)
     = Inl (HTTPException 404 (ProductMissing 999999))"
    by (simp add: line_def)
  have b4: "items (request [line 3 1]) = [] @ line 3 1 # []"
    by (simp add: request_def)
  have b: "products (working ?c2) (product_id (line 3 1))
             = Some \<lparr>stock = 9, price = 100, is_deleted = True, p_updated_at = []\<rparr>"
    by (simp add: storage_defs shop_defs)
  from line_checks_in_order [OF h1 h2 h3 b4 h5 h6] b
  have B: "fst (create_order shop_env (request [line 3 1]) shop_conn)
     = Inl (HTTPException 400 (ProductDisabled 3))"
    by (simp add: line_def)
  have c4: "items (request [line 1 3, line 2 5]) = [line 1 3] @ line 2 5 # []"
    by (simp add: request_def)
  have c5: "process_items shop_env 1 ?t (fzero shop_env) [line 1 3] ?c2 = (Inr 3000, ?c3)"
    by (simp add: prod_eq_iff handler_defs storage_defs shop_defs)
  have c6: "\<not> raises shop_env ?c3" by (simp add: storage_defs shop_defs)
  have c: "products (working ?c3) (product_id (line 2 5))
             = Some \<lparr>stock = 2, price = 250, is_deleted = False, p_updated_at = []\<rparr>"
    by (simp add: handler_defs storage_defs shop_defs)
  from line_checks_in_order [OF h1 h2 h3 c4 c5 c6] c
  have C: "fst (create_order shop_env (request [line 1 3, line 2 5]) shop_conn)
     = Inl (HTTPException 400 (StockShort 2 2 5))"
    by (simp add: line_def)
  from A B C show ?thesis by simp
qed

lemma update_product_stock_effect:
  assumes "update_product_stock E qty t pid c = (Inr n, c')"
  shows "(n = 1 \<and> (\<exists>p. products (working c) pid = Some p \<and> qty \<le> stock p
                   \<and> products (working c') = (products (working c))
                        (pid \<mapsto> p\<lparr>stock := stock p - qty, p_updated_at := t\<rparr>)))
         \<or> (n = 0 \<and> working c' = working c
              \<and> (products (working c) pid = None
                  \<or> (\<exists>p. products (working c) pid = Some p \<and> stock p < qty)))"
  using assms
  by (auto simp: storage_defs Let_def split: if_splits option.splits)

text \<open>With the locked read and the conditional update on one connection state, a pass
  never ends in the failure of line 220.\<close>

lemma process_item_no_conflict:
  "process_item E oid t tot item c = (Inl e, c') \<Longrightarrow>
     e \<noteq> HTTPException code (StockUpdateFailed pid)"
  by (auto simp: process_item_def process_fetched_def storage_defs Let_def
           split: if_splits option.splits prod.splits sum.splits)

text \<open>
  C5. (1) A conditional update that does not raise reports one row, and has then
  decremented, by the quantity, the stock of a row that had at least that much when the
  update ran; or it reports no row and has written nothing, the product having no row or
  less stock than the quantity at that time. (2) When the tuple of the locked read shows
  a live product with enough stock but the update, not raising, finds no row or too
  little stock, the rest of the loop body rolls the transaction back at once and raises
  status 400 with the message of a failed stock update, which is not the message of
  insufficient stock; the connection then holds no write of its own and no transaction
  is open.
\<close>

theorem conditional_update_conflict:
  "(update_product_stock E qty t pid c = (Inr n, c1) \<longrightarrow>
      (n = 1 \<and> (\<exists>p. products (working c) pid = Some p \<and> qty \<le> stock p
                   \<and> products (working c1) = (products (working c))
                        (pid \<mapsto> p\<lparr>stock := stock p - qty, p_updated_at := t\<rparr>)))
      \<or> (n = 0 \<and> working c1 = working c
           \<and> (products (working c) pid = None
               \<or> (\<exists>p. products (working c) pid = Some p \<and> stock p < qty))))
   \<and> (quantity item \<le> product_stock \<and> \<not> raises E c
        \<and> (products (working c) (product_id item) = None
            \<or> (\<exists>p. products (working c) (product_id item) = Some p
                   \<and> stock p < quantity item)) \<longrightarrow>
        process_fetched E oid t tot item (product_stock, product_price, False) c
          = (Inl (HTTPException 400 (StockUpdateFailed (product_id item))),
             rollback (logged (UpdateProductStock (quantity item) (product_id item)) c))
        \<and> StockUpdateFailed (product_id item)
            \<noteq> StockShort (product_id item) product_stock (quantity item)
        \<and> working (snd (process_fetched E oid t tot item
                           (product_stock, product_price, False) c)) = committed c
        \<and> \<not> in_transaction (snd (process_fetched E oid t tot item
                           (product_stock, product_price, False) c)))"
proof (intro conjI impI)
  assume "update_product_stock E qty t pid c = (Inr n, c1)"
  then show "(n = 1 \<and> (\<exists>p. products (working c) pid = Some p \<and> qty \<le> stock p
                   \<and> products (working c1) = (products (working c))
                        (pid \<mapsto> p\<lparr>stock := stock p - qty, p_updated_at := t\<rparr>)))
      \<or> (n = 0 \<and> working c1 = working c
           \<and> (products (working c) pid = None
               \<or> (\<exists>p. products (working c) pid = Some p \<and> stock p < qty)))"
    by (rule update_product_stock_effect)
next
  assume a: "quantity item \<le> product_stock \<and> \<not> raises E c
        \<and> (products (working c) (product_id item) = None
            \<or> (\<exists>p. products (working c) (product_id item) = Some p
                   \<and> stock p < quantity item))"
  then have run: "process_fetched E oid t tot item (product_stock, product_price, False) c
          = (Inl (HTTPException 400 (StockUpdateFailed (product_id item))),
             rollback (logged (UpdateProductStock (quantity item) (product_id item)) c))"
    by (auto simp: process_fetched_def update_product_stock_def Let_def)
  show "process_fetched E oid t tot item (product_stock, product_price, False) c
          = (Inl (HTTPException 400 (StockUpdateFailed (product_id item))),
             rollback (logged (UpdateProductStock (quantity item) (product_id item)) c))"
    by (fact run)
  show "StockUpdateFailed (product_id item)
            \<noteq> StockShort (product_id item) product_stock (quantity item)"
    by simp
  show "working (snd (process_fetched E oid t tot item
                           (product_stock, product_price, False) c)) = committed c"
    by (simp add: run rollback_def logged_def)
  show "\<not> in_transaction (snd (process_fetched E oid t tot item
                           (product_stock, product_price, False) c))"
    by (simp add: run rollback_def logged_def)
qed

text \<open>In the shop, the locked read saw the 2 pieces of product 2, and one of them is
  gone when the update for 2 pieces runs.\<close>

theorem conditional_update_conflict_witness:
  "fst (process_fetched shop_env 1 [] 0 (line 2 2) (2, 250, False)
          (shop_conn\<lparr>working := shop_tables\<lparr>products := shop_products
             (2 \<mapsto> \<lparr>stock = 1, price = 250, is_deleted = False, p_updated_at = []\<rparr>)\<rparr>\<rparr>))
     = Inl (HTTPException 400 (StockUpdateFailed 2))
   \<and> working (snd (process_fetched shop_env 1 [] 0 (line 2 2) (2, 250, False)
          (shop_conn\<lparr>working := shop_tables\<lparr>products := shop_products
             (2 \<mapsto> \<lparr>stock = 1, price = 250, is_deleted = False, p_updated_at = []\<rparr>)\<rparr>\<rparr>)))
     = shop_tables
   \<and> fst (update_product_stock shop_env 2 [] 2
          (shop_conn\<lparr>working := shop_tables\<lparr>products := shop_products
             (2 \<mapsto> \<lparr>stock = 1, price = 250, is_deleted = False, p_updated_at = []\<rparr>)\<rparr>\<rparr>))
     = Inr 0"
proof -
  let ?c = "shop_conn\<lparr>working := shop_tables\<lparr>products := shop_products
             (2 \<mapsto> \<lparr>stock = 1, price = 250, is_deleted = False, p_updated_at = []\<rparr>)\<rparr>\<rparr>"
  let ?u = "update_product_stock shop_env 2 [] 2 ?c"
  have u: "?u = (Inr 0, snd ?u)"
    by (simp add: prod_eq_iff storage_defs shop_defs)
  have enough: "quantity (line 2 2) \<le> 2" by (simp add: line_def)
  have quiet: "\<not> raises shop_env ?c" by (simp add: raises_def shop_defs)
  have short: "products (working ?c) (product_id (line 2 2))
                 = Some \<lparr>stock = 1, price = 250, is_deleted = False, p_updated_at = []\<rparr>"
    by (simp add: line_def)
  then have short': "products (working ?c) (product_id (line 2 2)) = None
      \<or> (\<exists>p. products (working ?c) (product_id (line 2 2)) = Some p
             \<and> stock p < quantity (line 2 2))"
    by (simp add: line_def)
  note T = conditional_update_conflict [where E = shop_env and qty = 2 and t = "[]"
      and pid = 2 and c = ?c and n = 0 and ?c1.0 = "snd ?u" and item = "line 2 2"
      and product_stock = 2 and oid = 1 and tot = 0 and product_price = 250]
  from T enough quiet short'
  have "process_fetched shop_env 1 [] 0 (line 2 2) (2, 250, False) ?c
          = (Inl (HTTPException 400 (StockUpdateFailed (product_id (line 2 2)))),
             rollback (logged (UpdateProductStock (quantity (line 2 2)) (product_id (line 2 2))) ?c))
        \<and> working (snd (process_fetched shop_env 1 [] 0 (line 2 2) (2, 250, False) ?c))
            = committed ?c"
    by blast
  then have pf: "process_fetched shop_env 1 [] 0 (line 2 2) (2, 250, False) ?c
          = (Inl (HTTPException 400 (StockUpdateFailed (product_id (line 2 2)))),
             rollback (logged (UpdateProductStock (quantity (line 2 2)) (product_id (line 2 2))) ?c))"
    and wk: "working (snd (process_fetched shop_env 1 [] 0 (line 2 2) (2, 250, False) ?c))
            = committed ?c"
    by (rule conjunct1, rule conjunct2)
  have run: "fst (process_fetched shop_env 1 [] 0 (line 2 2) (2, 250, False) ?c)
          = Inl (HTTPException 400 (StockUpdateFailed 2))"
    by (simp only: pf fst_conv) (simp add: line_def)
  have undone: "working (snd (process_fetched shop_env 1 [] 0 (line 2 2) (2, 250, False) ?c))
          = shop_tables"
    by (simp only: wk) (simp add: shop_conn_def)
  from u have "fst ?u = Inr 0" by (simp add: prod_eq_iff)
  with run undone show ?thesis by simp
qed

lemma process_item_locks:
  "process_item E oid t tot item c = (r, c') \<Longrightarrow>
     locks_acquired (log c') = locks_acquired (log c) @ [product_id item]"
  by (auto simp: process_item_def process_fetched_def storage_defs Let_def
           split: if_splits option.splits prod.splits sum.splits)

lemma process_items_locks:
  "process_items E oid t tot its c = (r, c') \<Longrightarrow>
     \<exists>n. locks_acquired (log c') = locks_acquired (log c) @ take n (map product_id its)"
proof (induction its arbitrary: tot c)
  case Nil
  then show ?case by simp
next
  case (Cons item rest)
  obtain r1 c1 where step: "process_item E oid t tot item c = (r1, c1)"
    by (cases "process_item E oid t tot item c")
  note l1 = process_item_locks [OF step]
  show ?case
  proof (cases r1)
    case (Inl e)
    with Cons.prems step have "c' = c1" by simp
    with l1 have "locks_acquired (log c')
        = locks_acquired (log c) @ take (Suc 0) (map product_id (item # rest))" by simp
    then show ?thesis by blast
  next
    case (Inr tot1)
    with Cons.prems step have "process_items E oid t tot1 rest c1 = (r, c')" by simp
    from Cons.IH [OF this] obtain n where
      "locks_acquired (log c') = locks_acquired (log c1) @ take n (map product_id rest)"
      by blast
    with l1 have "locks_acquired (log c')
        = locks_acquired (log c) @ take (Suc n) (map product_id (item # rest))" by simp
    then show ?thesis by blast
  qed
qed

lemma create_order_try_locks:
  assumes "create_order_try E order_data c = (r, c')"
  shows "\<exists>n. locks_acquired (log c')
              = locks_acquired (log c) @ take n (map product_id (items order_data))"
proof -
  let ?num = "order_number (now_number E) (urandom E)"
  let ?t = "strftime_sql (now_current E)"
  have none: "\<exists>n. locks_acquired (log d)
              = locks_acquired (log c) @ take n (map product_id (items order_data))"
    if "locks_acquired (log d) = locks_acquired (log c)" for d :: "('a, 'b) connection"
    using that by (intro exI [of _ 0]) simp
  obtain r1 c1 where st: "start_transaction E c = (r1, c1)"
    by (cases "start_transaction E c")
  then have l1: "locks_acquired (log c1) = locks_acquired (log c)"
    by (auto simp: storage_defs split: if_splits)
  obtain r2 c2 where ins: "insert_order E (user_id order_data) ?num ?t c1 = (r2, c2)"
    by (cases "insert_order E (user_id order_data) ?num ?t c1")
  then have l2: "locks_acquired (log c2) = locks_acquired (log c1)"
    by (auto simp: storage_defs Let_def split: if_splits)
  show ?thesis
  proof (cases "\<exists>oid. r1 = Inr () \<and> r2 = Inr (Some oid) \<and> oid \<noteq> 0")
    case False
    with assms st ins have "c' = c1 \<or> c' = c2"
      by (auto simp: create_order_try_def Let_def split: sum.splits option.splits if_splits)
    with l1 l2 show ?thesis by (auto intro: none)
  next
    case True
    then obtain oid where ok: "r1 = Inr ()" "r2 = Inr (Some oid)" "oid \<noteq> 0" by blast
    obtain r3 c3 where loop: "process_items E oid ?t (fzero E) (items order_data) c2 = (r3, c3)"
      by (cases "process_items E oid ?t (fzero E) (items order_data) c2")
    from process_items_locks [OF loop] l1 l2 obtain n where
      l3: "locks_acquired (log c3)
             = locks_acquired (log c) @ take n (map product_id (items order_data))"
      by auto
    have "locks_acquired (log c') = locks_acquired (log c3)"
      using assms st ins ok loop
      by (auto simp: create_order_try_def Let_def storage_defs
               split: sum.splits option.splits if_splits)
    with l3 show ?thesis by auto
  qed
qed

text \<open>
  C6, as the code has it. The locked reads of a call are issued in the order of the
  lines of the request: the products locked during the call are an initial part of the
  request's product ids, in the request's order, and all of them when the call returns
  normally. Nothing sorts the lines.
\<close>

theorem locks_in_request_order:
  assumes "create_order E order_data c = (r, c')"
  shows "(\<exists>n. locks_acquired (log c')
               = locks_acquired (log c) @ take n (map product_id (items order_data)))
         \<and> (\<forall>ok. r = Inr ok \<longrightarrow>
               locks_acquired (log c')
                 = locks_acquired (log c) @ map product_id (items order_data))"
proof
  obtain r1 c1 where body: "create_order_try E order_data c = (r1, c1)"
    by (cases "create_order_try E order_data c")
  with assms have "locks_acquired (log c') = locks_acquired (log c1)"
    by (auto simp: create_order_def rollback_def logged_def split: sum.splits exn.splits)
  with create_order_try_locks [OF body]
  show "\<exists>n. locks_acquired (log c')
               = locks_acquired (log c) @ take n (map product_id (items order_data))"
    by simp
  show "\<forall>ok. r = Inr ok \<longrightarrow>
               locks_acquired (log c')
                 = locks_acquired (log c) @ map product_id (items order_data)"
  proof (intro allI impI)
    fix ok
    assume "r = Inr ok"
    with assms have "create_order E order_data c = (Inr (fst ok, snd ok), c')" by simp
    from create_order_Inr_frame [OF this]
    show "locks_acquired (log c')
            = locks_acquired (log c) @ map product_id (items order_data)"
      by simp
  qed
qed

lemma shop_order_2_1:
  "fst (create_order shop_env (request [line 2 1, line 1 1]) shop_conn)
     = Inr (1, ''ORD20240517090307ab07'')"
  by (simp add: handler_defs storage_defs shop_defs)

theorem locks_in_request_order_witness:
  "create_order shop_env (request [line 2 1, line 1 1]) shop_conn
     = (Inr (1, ''ORD20240517090307ab07''),
        snd (create_order shop_env (request [line 2 1, line 1 1]) shop_conn))
   \<and> locks_acquired (log (snd (create_order shop_env (request [line 2 1, line 1 1]) shop_conn)))
     = [2, 1]"
proof -
  let ?run = "create_order shop_env (request [line 2 1, line 1 1]) shop_conn"
  have run: "?run = (Inr (1, ''ORD20240517090307ab07''), snd ?run)"
    using shop_order_2_1 by (simp add: prod_eq_iff)
  from locks_in_request_order [OF run]
  have "locks_acquired (log (snd ?run))
          = locks_acquired (log shop_conn) @ map product_id (items (request [line 2 1, line 1 1]))"
    by blast
  then have "locks_acquired (log (snd ?run)) = [2, 1]"
    by (simp add: shop_conn_def request_def line_def)
  with run show ?thesis by simp
qed

text \<open>
  C6, as stated, fails: a request that names product 2 before product 1 locks product 2
  before product 1.
\<close>

theorem locks_not_ascending:
  "fst (create_order shop_env (request [line 2 1, line 1 1]) shop_conn)
     = Inr (1, ''ORD20240517090307ab07'')
   \<and> locks_acquired (log (snd (create_order shop_env (request [line 2 1, line 1 1]) shop_conn)))
     = [2, 1]
   \<and> \<not> sorted (locks_acquired
         (log (snd (create_order shop_env (request [line 2 1, line 1 1]) shop_conn))))"
proof -
  have "locks_acquired (log (snd (create_order shop_env (request [line 2 1, line 1 1]) shop_conn)))
     = [2, 1]"
    by (simp add: handler_defs storage_defs shop_defs)
  with shop_order_2_1 show ?thesis by simp
qed

subsection \<open>The order number\<close>

lemma digit_char_inj:
  assumes "a < 16" "b < 16" "digit_char a = digit_char b"
  shows "a = b"
proof -
  have "distinct ''0123456789abcdef''" by simp
  moreover have "a < length ''0123456789abcdef''" "b < length ''0123456789abcdef''"
    using assms by simp_all
  ultimately show ?thesis
    using assms(3) unfolding digit_char_def by (simp only: nth_eq_iff_index_eq)
qed

lemma decimal_step: "(a::nat) div 10 = b div 10 \<Longrightarrow> a mod 10 = b mod 10 \<Longrightarrow> a = b"
  by (metis div_mult_mod_eq)

lemma two_digits_inj:
  assumes "n < 100" "m < 100"
    and "digit_char (n div 10 mod 10) = digit_char (m div 10 mod 10)"
    and "digit_char (n mod 10) = digit_char (m mod 10)"
  shows "n = m"
proof -
  have "n div 10 mod 10 = m div 10 mod 10"
    by (rule digit_char_inj [OF _ _ assms(3)]) simp_all
  moreover have "n div 10 < 10" "m div 10 < 10" using assms by simp_all
  ultimately have hi: "n div 10 = m div 10" by simp
  have lo: "n mod 10 = m mod 10"
    by (rule digit_char_inj [OF _ _ assms(4)]) simp_all
  from hi lo show ?thesis by (rule decimal_step)
qed

lemma four_digits_inj:
  assumes "n < 10000" "m < 10000"
    and "digit_char (n div 10 div 10 div 10 mod 10) = digit_char (m div 10 div 10 div 10 mod 10)"
    and "digit_char (n div 10 div 10 mod 10) = digit_char (m div 10 div 10 mod 10)"
    and "digit_char (n div 10 mod 10) = digit_char (m div 10 mod 10)"
    and "digit_char (n mod 10) = digit_char (m mod 10)"
  shows "n = m"
proof -
  have "n div 10 div 10 < 100" "m div 10 div 10 < 100" using assms by simp_all
  then have "n div 10 div 10 = m div 10 div 10"
    using assms(3,4) by (rule two_digits_inj)
  moreover have "n div 10 mod 10 = m div 10 mod 10"
    by (rule digit_char_inj [OF _ _ assms(5)]) simp_all
  ultimately have "n div 10 = m div 10" by (rule decimal_step)
  moreover have "n mod 10 = m mod 10"
    by (rule digit_char_inj [OF _ _ assms(6)]) simp_all
  ultimately show ?thesis by (rule decimal_step)
qed

lemma hex_byte_inj:
  assumes "hex_byte a = hex_byte b"
  shows "a = b"
proof -
  have bound: "unat x div 16 < 16" for x :: "8 word"
  proof -
    have "unat x < 2 ^ LENGTH(8)" by (rule unsigned_less)
    then show ?thesis by simp
  qed
  from assms have d: "digit_char (unat a div 16) = digit_char (unat b div 16)"
    and m: "digit_char (unat a mod 16) = digit_char (unat b mod 16)"
    by (simp_all add: hex_byte_def)
  have "unat a div 16 = unat b div 16"
    by (rule digit_char_inj [OF bound bound d])
  moreover have "unat a mod 16 = unat b mod 16"
    by (rule digit_char_inj [OF _ _ m]) simp_all
  ultimately have "unat a = unat b" by (metis div_mult_mod_eq)
  then show ?thesis by (simp add: word_unat_eq_iff)
qed

lemma length_strftime_compact [simp]: "length (strftime_compact d) = 14"
  by (simp add: strftime_compact_def)

lemma length_hex_byte [simp]: "length (hex_byte b) = 2"
  by (simp add: hex_byte_def)

lemma order_number_parts:
  assumes "order_number d r = order_number d' r'"
  shows "strftime_compact d = strftime_compact d'" and "r = r'"
proof -
  from assms have "strftime_compact d @ (hex_byte (fst r) @ hex_byte (snd r))
      = strftime_compact d' @ (hex_byte (fst r') @ hex_byte (snd r'))"
    by (simp add: order_number_def)
  then have t: "strftime_compact d = strftime_compact d'"
    and h: "hex_byte (fst r) @ hex_byte (snd r) = hex_byte (fst r') @ hex_byte (snd r')"
    by simp_all
  from h have "hex_byte (fst r) = hex_byte (fst r')" "hex_byte (snd r) = hex_byte (snd r')"
    by simp_all
  then have "fst r = fst r'" "snd r = snd r'" by (simp_all add: hex_byte_inj)
  then show "r = r'" by (simp add: prod_eq_iff)
  from t show "strftime_compact d = strftime_compact d'" .
qed

lemma strftime_compact_inj:
  assumes "datetime_valid d" "datetime_valid d'"
    and "strftime_compact d = strftime_compact d'"
  shows "d = d'"
proof -
  from assms(3) have
    y: "digit_char (year d div 10 div 10 div 10 mod 10)
          = digit_char (year d' div 10 div 10 div 10 mod 10)"
       "digit_char (year d div 10 div 10 mod 10) = digit_char (year d' div 10 div 10 mod 10)"
       "digit_char (year d div 10 mod 10) = digit_char (year d' div 10 mod 10)"
       "digit_char (year d mod 10) = digit_char (year d' mod 10)"
    and mo: "digit_char (month d div 10 mod 10) = digit_char (month d' div 10 mod 10)"
       "digit_char (month d mod 10) = digit_char (month d' mod 10)"
    and da: "digit_char (day d div 10 mod 10) = digit_char (day d' div 10 mod 10)"
       "digit_char (day d mod 10) = digit_char (day d' mod 10)"
    and ho: "digit_char (hour d div 10 mod 10) = digit_char (hour d' div 10 mod 10)"
       "digit_char (hour d mod 10) = digit_char (hour d' mod 10)"
    and mi: "digit_char (minute d div 10 mod 10) = digit_char (minute d' div 10 mod 10)"
       "digit_char (minute d mod 10) = digit_char (minute d' mod 10)"
    and se: "digit_char (second d div 10 mod 10) = digit_char (second d' div 10 mod 10)"
       "digit_char (second d mod 10) = digit_char (second d' mod 10)"
    by (simp_all add: strftime_compact_def)
  from assms(1,2) have range:
    "year d < 10000" "year d' < 10000" "month d < 100" "month d' < 100"
    "day d < 100" "day d' < 100" "hour d < 100" "hour d' < 100"
    "minute d < 100" "minute d' < 100" "second d < 100" "second d' < 100"
    by (simp_all add: datetime_valid_def)
  have "year d = year d'" using range(1,2) y by (rule four_digits_inj)
  moreover have "month d = month d'" using range(3,4) mo by (rule two_digits_inj)
  moreover have "day d = day d'" using range(5,6) da by (rule two_digits_inj)
  moreover have "hour d = hour d'" using range(7,8) ho by (rule two_digits_inj)
  moreover have "minute d = minute d'" using range(9,10) mi by (rule two_digits_inj)
  moreover have "second d = second d'" using range(11,12) se by (rule two_digits_inj)
  ultimately show ?thesis by (cases d, cases d') simp
qed

lemma card_order_numbers: "card (range (order_number d)) = 2 ^ 16"
proof -
  have "inj (order_number d)"
    by (rule injI) (rule order_number_parts(2))
  then have "card (range (order_number d)) = card (UNIV :: (8 word \<times> 8 word) set)"
    by (rule card_image)
  also have "\<dots> = card (UNIV :: 8 word set) * card (UNIV :: 8 word set)"
    by (simp only: UNIV_Times_UNIV [symmetric] card_cartesian_product)
  also have "\<dots> = 2 ^ 16" by (simp add: card_word)
  finally show ?thesis .
qed


text \<open>
  C7. (1) The order number a call returns is \<open>order_number\<close> of the clock reading and of
  the two bytes of \<^verbatim>\<open>os.urandom(2)\<close>, a function of these two alone: it reads neither
  the store nor a counter; and the first storage operation after the start of the
  transaction is the insertion of the order row with that number, with no read before
  it. (2) The number is the three letters ORD, the fourteen digits of the clock reading
  down to the second, and the four hexadecimal digits of the two bytes. (3) At a fixed
  clock reading the \<open>2 ^ 16\<close> values of the two bytes give \<open>2 ^ 16\<close> different
  numbers, and two numbers are equal only for the same second and the same bytes. That
  the bytes are cryptographically random is a property of \<^verbatim>\<open>os.urandom\<close>, outside
  the embedding.
\<close>

theorem order_number_construction:
  "(create_order E order_data c = (Inr (oid, num), c') \<longrightarrow>
      num = order_number (now_number E) (urandom E)
      \<and> (\<exists>ss. log c' = log c @ StartTransaction # InsertOrder (user_id order_data) num # ss))
   \<and> length (order_number d r) = 21
   \<and> take 3 (order_number d r) = ''ORD''
   \<and> take 14 (drop 3 (order_number d r)) = strftime_compact d
   \<and> drop 17 (order_number d r) = hex_byte (fst r) @ hex_byte (snd r)
   \<and> card (range (order_number d)) = 2 ^ 16
   \<and> (datetime_valid d \<and> datetime_valid d' \<and> order_number d r = order_number d' r' \<longrightarrow>
        d = d' \<and> r = r')"
proof (intro conjI impI)
  assume run: "create_order E order_data c = (Inr (oid, num), c')"
  from create_order_Inr_frame [OF run]
  show "num = order_number (now_number E) (urandom E)" by simp
  from create_order_Inr_frame [OF run]
  show "\<exists>ss. log c' = log c @ StartTransaction # InsertOrder (user_id order_data) num # ss"
    by simp
next
  show "length (order_number d r) = 21" by (simp add: order_number_def)
  show "take 3 (order_number d r) = ''ORD''" by (simp add: order_number_def)
  show "take 14 (drop 3 (order_number d r)) = strftime_compact d"
    by (simp add: order_number_def)
  show "drop 17 (order_number d r) = hex_byte (fst r) @ hex_byte (snd r)"
    by (simp add: order_number_def)
  show "card (range (order_number d)) = 2 ^ 16" by (rule card_order_numbers)
next
  assume a: "datetime_valid d \<and> datetime_valid d' \<and> order_number d r = order_number d' r'"
  then have eq: "order_number d r = order_number d' r'" by simp
  from a order_number_parts(1) [OF eq] show "d = d'"
    by (intro strftime_compact_inj) simp_all
  from order_number_parts(2) [OF eq] show "r = r'" .
qed

theorem order_number_construction_witness:
  "create_order shop_env (request [line 1 3]) shop_conn
     = (Inr (1, ''ORD20240517090307ab07''),
        snd (create_order shop_env (request [line 1 3]) shop_conn))
   \<and> datetime_valid (now_number shop_env)
   \<and> order_number (now_number shop_env) (urandom shop_env) = ''ORD20240517090307ab07''
   \<and> take 2 (log (snd (create_order shop_env (request [line 1 3]) shop_conn)))
       = [StartTransaction, InsertOrder 7 ''ORD20240517090307ab07'']"
proof -
  let ?run = "create_order shop_env (request [line 1 3]) shop_conn"
  have run: "?run = (Inr (1, ''ORD20240517090307ab07''), snd ?run)"
    using shop_order_1_3 by (simp add: prod_eq_iff)
  have valid: "datetime_valid (now_number shop_env)"
    by (simp add: datetime_valid_def shop_env_def)
  note T = order_number_construction [where E = shop_env
      and order_data = "request [line 1 3]" and c = shop_conn and oid = 1
      and num = "''ORD20240517090307ab07''" and c' = "snd ?run"
      and d = "now_number shop_env" and d' = "now_number shop_env"
      and r = "urandom shop_env" and r' = "urandom shop_env"]
  from T run have num: "''ORD20240517090307ab07''
      = order_number (now_number shop_env) (urandom shop_env)"
    and "\<exists>ss. log (snd ?run) = log shop_conn @ StartTransaction
            # InsertOrder (user_id (request [line 1 3])) ''ORD20240517090307ab07'' # ss"
    by blast+
  then have "take 2 (log (snd ?run))
       = [StartTransaction, InsertOrder 7 ''ORD20240517090307ab07'']"
    by (auto simp: shop_conn_def request_def)
  moreover from T valid have "now_number shop_env = now_number shop_env
      \<and> urandom shop_env = urandom shop_env" by blast
  ultimately show ?thesis using run valid num by simp
qed

lemma create_order_no_id:
  assumes "\<not> in_transaction c" and "\<not> fault E (length (log c))"
    and "\<not> fault E (Suc (length (log c)))"
    and "lastrowid E = None \<or> lastrowid E = Some 0"
  shows "fst (create_order E order_data c) = Inl (HTTPException 500 OrderNotCreated)"
    and "log (snd (create_order E order_data c))
           = log c @ [StartTransaction,
                      InsertOrder (user_id order_data)
                        (order_number (now_number E) (urandom E)),
                      Rollback]"
    and "working (snd (create_order E order_data c)) = committed c"
    and "committed (snd (create_order E order_data c)) = committed c"
    and "\<not> in_transaction (snd (create_order E order_data c))"
  using assms
  by (auto simp: create_order_def create_order_try_def storage_defs Let_def)

text \<open>
  C8. (1) The insertion of the order row, when it does not raise, returns
  \<^verbatim>\<open>cursor.lastrowid\<close> and appends to \<^verbatim>\<open>orders\<close> one row with status pending, the
  user and the number given, and the zero total amount of the column's default. (2) When
  the transaction starts and the insertion does not raise but produces no id
  (\<^verbatim>\<open>None\<close> or 0), the call fails with status 500 and the message that the order
  could not be created; its only storage operations are the start, the insertion and
  the rollback, and nothing of it stays. (3) In a call that returns normally the id
  returned is the generated one; the update of the total amount comes after the three
  operations of every line and just before the commit; and the order row, still pending,
  then carries the sum accumulated over the line rows.
\<close>

theorem order_row_pending_then_total:
  "(insert_order E uid num t c = (Inr v, c1) \<longrightarrow>
      v = lastrowid E
      \<and> (\<exists>row. orders (working c1) = orders (working c) @ [row]
            \<and> o_status row = ''pending'' \<and> total_amount row = fzero E
            \<and> o_user_id row = uid \<and> o_number row = num
            \<and> (\<forall>i. v = Some i \<longrightarrow> o_id row = i)))
   \<and> (\<not> in_transaction c \<and> \<not> fault E (length (log c))
        \<and> \<not> fault E (Suc (length (log c)))
        \<and> (lastrowid E = None \<or> lastrowid E = Some 0) \<longrightarrow>
        fst (create_order E order_data c) = Inl (HTTPException 500 OrderNotCreated)
        \<and> log (snd (create_order E order_data c))
            = log c @ [StartTransaction,
                       InsertOrder (user_id order_data)
                         (order_number (now_number E) (urandom E)),
                       Rollback]
        \<and> working (snd (create_order E order_data c)) = committed c
        \<and> committed (snd (create_order E order_data c)) = committed c)
   \<and> (create_order E order_data c = (Inr (oid, num'), c') \<longrightarrow>
        lastrowid E = Some oid
        \<and> log c' = log c @ [StartTransaction, InsertOrder (user_id order_data) num']
                    @ concat (map (item_stmts oid) (items order_data))
                    @ [UpdateOrderTotal oid, Commit]
        \<and> (\<exists>rows. order_items (committed c') = order_items (working c) @ rows
              \<and> length rows = length (items order_data)
              \<and> last (orders (committed c'))
                  = \<lparr>o_id = oid, o_user_id = user_id order_data, o_number = num',
                     o_status = ''pending'',
                     total_amount = foldl (fadd E) (fzero E) (map subtotal rows),
                     o_created_at = strftime_sql (now_current E),
                     o_updated_at = strftime_sql (now_current E)\<rparr>))"
proof (intro conjI impI)
  assume ins: "insert_order E uid num t c = (Inr v, c1)"
  then show "v = lastrowid E"
    by (auto simp: storage_defs Let_def split: if_splits)
  from ins show "\<exists>row. orders (working c1) = orders (working c) @ [row]
            \<and> o_status row = ''pending'' \<and> total_amount row = fzero E
            \<and> o_user_id row = uid \<and> o_number row = num
            \<and> (\<forall>i. v = Some i \<longrightarrow> o_id row = i)"
    by (auto simp: storage_defs total_amount_default_def Let_def split: if_splits)
next
  assume a: "\<not> in_transaction c \<and> \<not> fault E (length (log c))
        \<and> \<not> fault E (Suc (length (log c)))
        \<and> (lastrowid E = None \<or> lastrowid E = Some 0)"
  then have h: "\<not> in_transaction c" "\<not> fault E (length (log c))"
    "\<not> fault E (Suc (length (log c)))" "lastrowid E = None \<or> lastrowid E = Some 0"
    by simp_all
  show "fst (create_order E order_data c) = Inl (HTTPException 500 OrderNotCreated)"
    by (rule create_order_no_id(1) [OF h])
  show "log (snd (create_order E order_data c))
            = log c @ [StartTransaction,
                       InsertOrder (user_id order_data)
                         (order_number (now_number E) (urandom E)),
                       Rollback]"
    by (rule create_order_no_id(2) [OF h])
  show "working (snd (create_order E order_data c)) = committed c"
    by (rule create_order_no_id(3) [OF h])
  show "committed (snd (create_order E order_data c)) = committed c"
    by (rule create_order_no_id(4) [OF h])
next
  assume run: "create_order E order_data c = (Inr (oid, num'), c')"
  from create_order_Inr_frame [OF run] show "lastrowid E = Some oid" by simp
  from create_order_Inr_frame [OF run]
  show "log c' = log c @ [StartTransaction, InsertOrder (user_id order_data) num']
                    @ concat (map (item_stmts oid) (items order_data))
                    @ [UpdateOrderTotal oid, Commit]" by simp
  from create_order_Inr_rows [OF run] obtain rows where
    r1: "order_items (committed c') = order_items (working c) @ rows"
    and r2: "list_all2 (\<lambda>it row.
                i_order_id row = oid \<and> i_product_id row = product_id it
                \<and> i_quantity row = quantity it
                \<and> (\<exists>pr. products (working c) (product_id it) = Some pr
                       \<and> unit_price row = float_of E (price pr))
                \<and> subtotal row = fmul E (unit_price row) (i_quantity row))
              (items order_data) rows"
    and r3: "orders (committed c') =
               map (\<lambda>r. if o_id r = oid
                         then r\<lparr>total_amount := foldl (fadd E) (fzero E) (map subtotal rows)\<rparr>
                         else r) (orders (working c))
               @ [\<lparr>o_id = oid, o_user_id = user_id order_data, o_number = num',
                   o_status = ''pending'',
                   total_amount = foldl (fadd E) (fzero E) (map subtotal rows),
                   o_created_at = strftime_sql (now_current E),
                   o_updated_at = strftime_sql (now_current E)\<rparr>]"
    by blast
  from r2 have "length rows = length (items order_data)"
    by (simp add: list_all2_lengthD)
  moreover from r3 have "last (orders (committed c'))
                  = \<lparr>o_id = oid, o_user_id = user_id order_data, o_number = num',
                     o_status = ''pending'',
                     total_amount = foldl (fadd E) (fzero E) (map subtotal rows),
                     o_created_at = strftime_sql (now_current E),
                     o_updated_at = strftime_sql (now_current E)\<rparr>"
    by (simp only: last_snoc)
  ultimately show "\<exists>rows. order_items (committed c') = order_items (working c) @ rows
              \<and> length rows = length (items order_data)
              \<and> last (orders (committed c'))
                  = \<lparr>o_id = oid, o_user_id = user_id order_data, o_number = num',
                     o_status = ''pending'',
                     total_amount = foldl (fadd E) (fzero E) (map subtotal rows),
                     o_created_at = strftime_sql (now_current E),
                     o_updated_at = strftime_sql (now_current E)\<rparr>"
    using r1 by blast
qed

text \<open>In the shop: the insertion on the fresh connection, a store that generates no
  id, and the order of 3 pieces of product 1.\<close>

theorem order_row_pending_then_total_witness:
  "fst (insert_order shop_env 7 ''N'' ''T'' shop_conn) = Inr (Some 1)
   \<and> fst (create_order (shop_env\<lparr>lastrowid := Some 0\<rparr>) (request [line 1 3]) shop_conn)
       = Inl (HTTPException 500 OrderNotCreated)
   \<and> create_order shop_env (request [line 1 3]) shop_conn
       = (Inr (1, ''ORD20240517090307ab07''),
          snd (create_order shop_env (request [line 1 3]) shop_conn))
   \<and> log (snd (create_order shop_env (request [line 1 3]) shop_conn))
       = [StartTransaction, InsertOrder 7 ''ORD20240517090307ab07'',
          SelectProductForUpdate 1, UpdateProductStock 3 1, InsertOrderItem 1 1 3,
          UpdateOrderTotal 1, Commit]"
proof -
  let ?run = "create_order shop_env (request [line 1 3]) shop_conn"
  let ?ins = "insert_order shop_env 7 ''N'' ''T'' shop_conn"
  let ?E0 = "shop_env\<lparr>lastrowid := Some 0\<rparr>"
  have run: "?run = (Inr (1, ''ORD20240517090307ab07''), snd ?run)"
    using shop_order_1_3 by (simp add: prod_eq_iff)
  have ins: "?ins = (Inr (Some 1), snd ?ins)"
    by (simp add: prod_eq_iff storage_defs shop_defs)
  have quiet: "\<not> in_transaction shop_conn" "\<not> fault ?E0 (length (log shop_conn))"
    "\<not> fault ?E0 (Suc (length (log shop_conn)))"
    "lastrowid ?E0 = None \<or> lastrowid ?E0 = Some 0"
    by (simp_all add: shop_defs)
  from order_row_pending_then_total [where E = shop_env and uid = 7 and num = "''N''"
      and t = "''T''" and c = shop_conn and v = "Some 1" and ?c1.0 = "snd ?ins"
      and order_data = "request [line 1 3]" and oid = 1
      and num' = "''ORD20240517090307ab07''" and c' = "snd ?run"] ins run
  have "Some 1 = lastrowid shop_env"
    and "log (snd ?run) = log shop_conn
            @ [StartTransaction,
               InsertOrder (user_id (request [line 1 3])) ''ORD20240517090307ab07'']
            @ concat (map (item_stmts 1) (items (request [line 1 3])))
            @ [UpdateOrderTotal 1, Commit]"
    by blast+
  then have A: "log (snd ?run)
       = [StartTransaction, InsertOrder 7 ''ORD20240517090307ab07'',
          SelectProductForUpdate 1, UpdateProductStock 3 1, InsertOrderItem 1 1 3,
          UpdateOrderTotal 1, Commit]"
    by (simp add: shop_conn_def request_def line_def item_stmts_def)
  from order_row_pending_then_total [where E = ?E0 and c = shop_conn
      and order_data = "request [line 1 3]"] quiet
  have B: "fst (create_order ?E0 (request [line 1 3]) shop_conn)
       = Inl (HTTPException 500 OrderNotCreated)"
    by blast
  from ins have "fst ?ins = Inr (Some 1)" by (simp add: prod_eq_iff)
  with A B run show ?thesis by simp
qed

text \<open>
  C9. A request with a user id that is not positive, with no line, or with a line whose
  product id or quantity is not positive does not validate against
  \<^verbatim>\<open>CreateOrderRequest\<close>: the route answers 422 without calling the handler, and the
  connection is as it was: no storage operation is issued, no transaction is opened, and
  no row of any table is written.
\<close>

theorem invalid_request_rejected_before_transaction:
  assumes "user_id order_data \<le> 0 \<or> items order_data = []
           \<or> (\<exists>it \<in> set (items order_data). product_id it \<le> 0 \<or> quantity it \<le> 0)"
  shows "post_api_orders E order_data c = (Inl (HTTPException 422 RequestInvalid), c)"
proof -
  have "\<not> CreateOrderRequest_valid order_data"
  proof
    assume "CreateOrderRequest_valid order_data"
    then have "0 < user_id order_data" and "items order_data \<noteq> []"
      and "\<forall>it \<in> set (items order_data). 0 < product_id it \<and> 0 < quantity it"
      by (auto simp: CreateOrderRequest_valid_def OrderItemRequest_valid_def list_all_iff)
    with assms show False by fastforce
  qed
  then show ?thesis by (simp add: post_api_orders_def)
qed

theorem invalid_request_rejected_before_transaction_witness:
  "post_api_orders shop_env ((request [line 1 1])\<lparr>user_id := 0\<rparr>) shop_conn
     = (Inl (HTTPException 422 RequestInvalid), shop_conn)
   \<and> post_api_orders shop_env (request []) shop_conn
     = (Inl (HTTPException 422 RequestInvalid), shop_conn)
   \<and> post_api_orders shop_env (request [line 1 1, line 0 1]) shop_conn
     = (Inl (HTTPException 422 RequestInvalid), shop_conn)
   \<and> post_api_orders shop_env (request [line 1 (- 2)]) shop_conn
     = (Inl (HTTPException 422 RequestInvalid), shop_conn)
   \<and> log shop_conn = [] \<and> \<not> in_transaction shop_conn"
proof -
  have a: "user_id ((request [line 1 1])\<lparr>user_id := 0\<rparr>) \<le> 0
           \<or> items ((request [line 1 1])\<lparr>user_id := 0\<rparr>) = []
           \<or> (\<exists>it \<in> set (items ((request [line 1 1])\<lparr>user_id := 0\<rparr>)).
                 product_id it \<le> 0 \<or> quantity it \<le> 0)"
    by simp
  have b: "user_id (request []) \<le> 0 \<or> items (request []) = []
           \<or> (\<exists>it \<in> set (items (request [])). product_id it \<le> 0 \<or> quantity it \<le> 0)"
    by (simp add: request_def)
  have c: "user_id (request [line 1 1, line 0 1]) \<le> 0
           \<or> items (request [line 1 1, line 0 1]) = []
           \<or> (\<exists>it \<in> set (items (request [line 1 1, line 0 1])).
                 product_id it \<le> 0 \<or> quantity it \<le> 0)"
    by (simp add: request_def line_def)
  have d: "user_id (request [line 1 (- 2)]) \<le> 0 \<or> items (request [line 1 (- 2)]) = []
           \<or> (\<exists>it \<in> set (items (request [line 1 (- 2)])).
                 product_id it \<le> 0 \<or> quantity it \<le> 0)"
    by (simp add: request_def line_def)
  have "log shop_conn = []" "\<not> in_transaction shop_conn" by (simp_all add: shop_conn_def)
  with invalid_request_rejected_before_transaction [OF a, of shop_env shop_conn]
    invalid_request_rejected_before_transaction [OF b, of shop_env shop_conn]
    invalid_request_rejected_before_transaction [OF c, of shop_env shop_conn]
    invalid_request_rejected_before_transaction [OF d, of shop_env shop_conn]
  show ?thesis by simp
qed

lemma process_items_Inr_each:
  assumes "process_items E oid t tot (pre @ item # post) c = (Inr tot', c')"
  shows "\<exists>pr. products (working c) (product_id item) = Some pr
              \<and> quantity item \<le> stock pr - requested pre (product_id item)"
proof -
  from assms obtain tot1 c1 where
    before: "process_items E oid t tot pre c = (Inr tot1, c1)"
    and after: "process_items E oid t tot1 (item # post) c1 = (Inr tot', c')"
    by (auto simp: process_items_append split: prod.splits sum.splits)
  from after obtain tot2 c2 where step: "process_item E oid t tot1 item c1 = (Inr tot2, c2)"
    by (auto split: prod.splits sum.splits)
  from step obtain p where p: "products (working c1) (product_id item) = Some p"
    and enough: "quantity item \<le> stock p"
    by (rule process_item_Inr_products)
  from process_items_Inr_products [OF before, of "product_id item"] p
  obtain pr where "products (working c) (product_id item) = Some pr"
    and "stock p = stock pr - requested pre (product_id item)"
    by (cases "products (working c) (product_id item)") auto
  with enough show ?thesis by auto
qed

lemma list_all2_map_eq:
  "list_all2 P xs ys \<Longrightarrow> (\<And>x y. P x y \<Longrightarrow> f y = g x) \<Longrightarrow> map f ys = map g xs"
  by (induction rule: list_all2_induct) auto

text \<open>
  C10. After a call that returns normally on a connection without pending writes: (1)
  every line, a repeated product included, has its own locked read, conditional update
  and insertion, in the order of the lines, and its own row in \<^verbatim>\<open>order_items\<close>;
  (2) the check of each line passed against the stock the product had before the call
  less the quantities of the earlier lines for the same product; (3) hence the stock a
  product had before the call covers the sum of the quantities of all the lines that
  name it.
\<close>

theorem repeated_product_lines:
  assumes "create_order E order_data c = (Inr (oid, num), c')"
    and "working c = committed c"
  shows "log c' = log c @ [StartTransaction, InsertOrder (user_id order_data) num]
                  @ concat (map (item_stmts oid) (items order_data))
                  @ [UpdateOrderTotal oid, Commit]
       \<and> (\<exists>rows. order_items (committed c') = order_items (committed c) @ rows
             \<and> map i_product_id rows = map product_id (items order_data)
             \<and> map i_quantity rows = map quantity (items order_data))
       \<and> (\<forall>pre item post. items order_data = pre @ item # post \<longrightarrow>
             (\<exists>pr. products (committed c) (product_id item) = Some pr
                \<and> quantity item \<le> stock pr - requested pre (product_id item)))
       \<and> (\<forall>p \<in> product_id ` set (items order_data).
             \<exists>pr. products (committed c) p = Some pr
                \<and> requested (items order_data) p \<le> stock pr)"
proof (intro conjI)
  from create_order_Inr_frame [OF assms(1)]
  show "log c' = log c @ [StartTransaction, InsertOrder (user_id order_data) num]
                  @ concat (map (item_stmts oid) (items order_data))
                  @ [UpdateOrderTotal oid, Commit]" by simp
  from create_order_Inr_rows [OF assms(1)] assms(2) obtain rows where
    r1: "order_items (committed c') = order_items (committed c) @ rows"
    and r2: "list_all2 (\<lambda>it row.
                i_order_id row = oid \<and> i_product_id row = product_id it
                \<and> i_quantity row = quantity it
                \<and> (\<exists>pr. products (committed c) (product_id it) = Some pr
                       \<and> unit_price row = float_of E (price pr))
                \<and> subtotal row = fmul E (unit_price row) (i_quantity row))
              (items order_data) rows"
    by auto
  have "map i_product_id rows = map product_id (items order_data)"
    by (rule list_all2_map_eq [OF r2]) simp
  moreover have "map i_quantity rows = map quantity (items order_data)"
    by (rule list_all2_map_eq [OF r2]) simp
  ultimately show "\<exists>rows. order_items (committed c') = order_items (committed c) @ rows
             \<and> map i_product_id rows = map product_id (items order_data)
             \<and> map i_quantity rows = map quantity (items order_data)"
    using r1 by blast
  from assms(1) obtain c1 c2 c3 tot where
    st: "start_transaction E c = (Inr (), c1)"
    and ins: "insert_order E (user_id order_data) num (strftime_sql (now_current E)) c1
           = (Inr (Some oid), c2)"
    and loop: "process_items E oid (strftime_sql (now_current E)) (fzero E) (items order_data) c2
           = (Inr tot, c3)"
    by (rule create_order_Inr)
  from st ins assms(2) have c2: "products (working c2) = products (committed c)"
    by (auto simp: storage_defs Let_def split: if_splits)
  show "\<forall>pre item post. items order_data = pre @ item # post \<longrightarrow>
             (\<exists>pr. products (committed c) (product_id item) = Some pr
                \<and> quantity item \<le> stock pr - requested pre (product_id item))"
  proof (intro allI impI)
    fix pre item post
    assume "items order_data = pre @ item # post"
    with loop have "process_items E oid (strftime_sql (now_current E)) (fzero E)
        (pre @ item # post) c2 = (Inr tot, c3)" by simp
    from process_items_Inr_each [OF this] c2
    show "\<exists>pr. products (committed c) (product_id item) = Some pr
                \<and> quantity item \<le> stock pr - requested pre (product_id item)"
      by simp
  qed
  show "\<forall>p \<in> product_id ` set (items order_data).
             \<exists>pr. products (committed c) p = Some pr
                \<and> requested (items order_data) p \<le> stock pr"
  proof
    fix p
    assume "p \<in> product_id ` set (items order_data)"
    from create_order_Inr_products(2) [OF assms(1) this] assms(2)
    show "\<exists>pr. products (committed c) p = Some pr
                \<and> requested (items order_data) p \<le> stock pr"
      by auto
  qed
qed

text \<open>In the shop, product 1 has 5 pieces: lines for 3 and 2 pieces of it pass, and
  lines for 3 and 3 pieces fail at the second one, which finds 2 pieces.\<close>

theorem repeated_product_lines_witness:
  "create_order shop_env (request [line 1 3, line 1 2]) shop_conn
     = (Inr (1, ''ORD20240517090307ab07''),
        snd (create_order shop_env (request [line 1 3, line 1 2]) shop_conn))
   \<and> requested (items (request [line 1 3, line 1 2])) 1 = 5
   \<and> map_option stock (products (committed shop_conn) 1) = Some 5
   \<and> locks_acquired (log (snd (create_order shop_env (request [line 1 3, line 1 2]) shop_conn)))
       = [1, 1]
   \<and> fst (create_order shop_env (request [line 1 3, line 1 3]) shop_conn)
       = Inl (HTTPException 400 (StockShort 1 2 3))"
proof -
  let ?run = "create_order shop_env (request [line 1 3, line 1 2]) shop_conn"
  have "fst ?run = Inr (1, ''ORD20240517090307ab07'')"
    by (simp add: handler_defs storage_defs shop_defs)
  then have run: "?run = (Inr (1, ''ORD20240517090307ab07''), snd ?run)"
    by (simp add: prod_eq_iff)
  have same: "working shop_conn = committed shop_conn" by (simp add: shop_conn_def)
  from repeated_product_lines [OF run same]
  have "log (snd ?run) = log shop_conn
          @ [StartTransaction,
             InsertOrder (user_id (request [line 1 3, line 1 2])) ''ORD20240517090307ab07'']
          @ concat (map (item_stmts 1) (items (request [line 1 3, line 1 2])))
          @ [UpdateOrderTotal 1, Commit]"
    by blast
  then have "locks_acquired (log (snd ?run)) = locks_acquired (log shop_conn
          @ [StartTransaction,
             InsertOrder (user_id (request [line 1 3, line 1 2])) ''ORD20240517090307ab07'']
          @ concat (map (item_stmts 1) (items (request [line 1 3, line 1 2])))
          @ [UpdateOrderTotal 1, Commit])"
    by (rule arg_cong)
  also have "\<dots> = [1, 1]"
    by (simp add: shop_conn_def request_def line_def item_stmts_def)
  finally have locks: "locks_acquired (log (snd ?run)) = [1, 1]" .
  have req: "requested (items (request [line 1 3, line 1 2])) 1 = 5"
    by (simp add: request_def line_def)
  have p1: "map_option stock (products (committed shop_conn) 1) = Some 5"
    by (simp add: shop_defs)
  have short: "fst (create_order shop_env (request [line 1 3, line 1 3]) shop_conn)
       = Inl (HTTPException 400 (StockShort 1 2 3))"
    by (simp add: handler_defs storage_defs shop_defs)
  from run req p1 locks short show ?thesis by simp
qed

end
